theory Spec2Isabelle
  imports Complex_Main "HOL-Library.Word"
begin

unbundle bit_operations_syntax

chapter \<open>The JAX-Learning notebooks: toy parity classifier and jit tracing examples\<close>

text \<open>
  The repository holds two notebooks. The first builds random 8-bit training data with
  parity labels, a two-layer network, a loss, and a training loop \<open>fit\<close> that is run
  with two optimizers. The second shows which Python functions \<open>jax.jit\<close> can trace.

  Array elements are modelled as \<open>real\<close> numbers: the rounding of float32 arithmetic is
  not part of the model. Arrays are nested lists in row-major order, Python dictionaries
  are maps, Python integers are \<open>int\<close>, uint8 and int32 array elements are words.
  Functions of the numerical frameworks that the notebooks only call (the random
  generators, the differentiation operator, the optimizers, the scalar cross-entropy
  formula) are parameters of the definitions that use them.
\<close>

section \<open>Errors\<close>

text \<open>
  The exceptions a cell can raise: \<open>ShapeError\<close> stands for the framework's complaint
  about incompatible array shapes, \<open>StructureError\<close> for two parameter trees with different
  keys, \<open>KeyError\<close> for a missing dictionary key; the last two are the errors of the
  jit notebook.
\<close>

datatype error = ShapeError | KeyError | StructureError | ConcretizationTypeError | OverflowError

section \<open>Arrays and dictionaries\<close>

text \<open>
  A two-dimensional array is a list of rows. \<open>has_shape r c m\<close> says that \<open>m\<close> is an
  \<open>r\<close> by \<open>c\<close> array; \<open>ncols\<close> reads the second dimension off the first row. The
  parameter record of the network is a dictionary from names to weight matrices.
\<close>

type_synonym matrix = "real list list"

type_synonym params = "string \<rightharpoonup> matrix"

definition has_shape :: "nat \<Rightarrow> nat \<Rightarrow> 'a list list \<Rightarrow> bool" where
  "has_shape r c m = (length m = r \<and> (\<forall>row \<in> set m. length row = c))"

definition ncols :: "'a list list \<Rightarrow> nat" where
  "ncols m = (case m of [] \<Rightarrow> 0 | row # _ \<Rightarrow> length row)"

text \<open>Sequencing of steps that can raise: the first error ends the computation.\<close>

definition bind_err :: "error + 'a \<Rightarrow> ('a \<Rightarrow> error + 'b) \<Rightarrow> error + 'b" where
  "bind_err m f = (case m of Inl e \<Rightarrow> Inl e | Inr v \<Rightarrow> f v)"

text \<open>\<^verbatim>\<open>params['hidden']\<close>: a dictionary lookup raises \<open>KeyError\<close> on a missing key.\<close>

definition getitem :: "('k \<rightharpoonup> 'v) \<Rightarrow> 'k \<Rightarrow> error + 'v" where
  "getitem d k = (case d k of None \<Rightarrow> Inl KeyError | Some v \<Rightarrow> Inr v)"

text \<open>
  \<^verbatim>\<open>jnp.dot(a, b)\<close> on two-dimensional arrays is the matrix product: it contracts the
  rows of \<open>a\<close> with the columns of \<open>b\<close> and fails when a row of \<open>a\<close> is not as long as
  \<open>b\<close> has rows.
\<close>

definition dot :: "matrix \<Rightarrow> matrix \<Rightarrow> error + matrix" where
  "dot a b =
     (if \<forall>row \<in> set a. length row = length b
      then Inr (map (\<lambda>row. map (\<lambda>j. \<Sum>k\<leftarrow>[0..<length b]. row ! k * b ! k ! j) [0..<ncols b]) a)
      else Inl ShapeError)"

text \<open>
  Element-wise binary operations broadcast: two dimensions are compatible when they are
  equal or one of them is 1, and the array with the dimension 1 is repeated along it.
\<close>

definition broadcast_dim :: "nat \<Rightarrow> nat \<Rightarrow> nat option" where
  "broadcast_dim m n =
     (if m = n then Some m else if m = 1 then Some n else if n = 1 then Some m else None)"

definition elementwise :: "(real \<Rightarrow> real \<Rightarrow> real) \<Rightarrow> matrix \<Rightarrow> matrix \<Rightarrow> error + matrix" where
  "elementwise f a b =
     (case (broadcast_dim (length a) (length b), broadcast_dim (ncols a) (ncols b)) of
        (Some r, Some c) \<Rightarrow>
          Inr (map (\<lambda>i. map (\<lambda>j. f (a ! (if length a = 1 then 0 else i) ! (if ncols a = 1 then 0 else j))
                                  (b ! (if length b = 1 then 0 else i) ! (if ncols b = 1 then 0 else j)))
                         [0..<c]) [0..<r])
      | _ \<Rightarrow> Inl ShapeError)"

text \<open>\<^verbatim>\<open>.sum(axis=-1)\<close> adds up every row; \<^verbatim>\<open>.mean()\<close> averages a vector.\<close>

definition sum_last_axis :: "matrix \<Rightarrow> real list" where
  "sum_last_axis m = map sum_list m"

definition mean :: "real list \<Rightarrow> real" where
  "mean v = sum_list v / real (length v)"

text \<open>
  \<^verbatim>\<open>.reshape(n, b, c)\<close> reads the elements in row-major order and regroups them; it
  fails when the number of elements is not \<open>n * b * c\<close>. \<open>ravel\<close> is the row-major
  element order of a four-dimensional array.
\<close>

definition ravel :: "'a list list list list \<Rightarrow> 'a list" where
  "ravel a = concat (concat (concat a))"

definition reshape :: "nat \<times> nat \<times> nat \<Rightarrow> 'a list \<Rightarrow> error + 'a list list list" where
  "reshape shp flat =
     (case shp of (n, b, c) \<Rightarrow>
        if length flat = n * b * c
        then Inr (map (\<lambda>i. map (\<lambda>j. map (\<lambda>k. flat ! ((i * b + j) * c + k)) [0..<c]) [0..<b]) [0..<n])
        else Inl ShapeError)"

section \<open>The training notebook: global variables and the first cell\<close>

text \<open>
  The global variables of the notebook that its cells read and assign, and the lines
  printed so far. A printed line \<^verbatim>\<open>step {i}, loss: {loss_value}\<close> is the pair of its
  two numbers. \<open>trained_params\<close> is the global \<^verbatim>\<open>params\<close> that the third and fourth cell
  assign (no cell reads it). The global \<^verbatim>\<open>optimizer\<close> is an argument of those cells.
\<close>

record notebook =
  RAW_TRAINING_DATA :: "int list list list"
  TRAINING_DATA :: "8 word list list list"
  LABELS :: "real list list list"
  initial_params :: params
  trained_params :: "params option"
  stdout :: "(nat \<times> real) list"

text \<open>\<^verbatim>\<open>BATCH_SIZE = 5\<close>, \<^verbatim>\<open>NUM_TRAIN_STEPS = 1_000\<close>.\<close>

definition BATCH_SIZE :: nat where
  "BATCH_SIZE = 5"

definition NUM_TRAIN_STEPS :: nat where
  "NUM_TRAIN_STEPS = 1000"

text \<open>
  \<^verbatim>\<open>RAW_TRAINING_DATA = np.random.randint(255, size=(NUM_TRAIN_STEPS, BATCH_SIZE, 1))\<close>:
  the drawn array is an input of the model. \<open>randint_output high shp raw\<close> says that \<open>raw\<close>
  is a possible result of \<open>np.random.randint(high, size=shp)\<close>: an array of that shape
  whose entries lie in the half-open range from 0 to \<open>high\<close>.
\<close>

definition randint_output :: "int \<Rightarrow> nat \<times> nat \<times> nat \<Rightarrow> int list list list \<Rightarrow> bool" where
  "randint_output high shp raw =
     (case shp of (n, b, c) \<Rightarrow>
        length raw = n \<and>
        (\<forall>batch \<in> set raw. length batch = b \<and>
           (\<forall>row \<in> set batch. length row = c \<and> (\<forall>r \<in> set row. 0 \<le> r \<and> r < high))))"

text \<open>\<^verbatim>\<open>.astype(np.uint8)\<close> keeps the low eight bits of an integer.\<close>

definition astype_uint8 :: "int \<Rightarrow> 8 word" where
  "astype_uint8 r = word_of_int r"

text \<open>
  \<^verbatim>\<open>np.unpackbits(a, axis=-1)\<close> replaces every byte of the last axis by its eight bits,
  the most significant bit first; each bit is again a uint8 (0 or 1).
\<close>

definition unpack_byte :: "8 word \<Rightarrow> 8 word list" where
  "unpack_byte w = map (\<lambda>k. if bit w k then 1 else 0) (rev [0..<8])"

definition unpackbits :: "8 word list \<Rightarrow> 8 word list" where
  "unpackbits row = concat (map unpack_byte row)"

text \<open>
  \<^verbatim>\<open>jax.nn.one_hot(x, num_classes)\<close>: position \<open>c\<close> of the result is 1 when \<open>x = c\<close>
  and 0 otherwise (so an \<open>x\<close> outside the classes gives all zeros).
\<close>

definition one_hot :: "int \<Rightarrow> nat \<Rightarrow> real list" where
  "one_hot x num_classes = map (\<lambda>c. if x = int c then 1 else 0) [0..<num_classes]"

text \<open>
  The first cell, after the draw:
  \<^verbatim>\<open>
  TRAINING_DATA = np.unpackbits(RAW_TRAINING_DATA.astype(np.uint8), axis=-1)
  LABELS = jax.nn.one_hot(RAW_TRAINING_DATA % 2, 2).astype(jnp.float32)
             .reshape(NUM_TRAIN_STEPS, BATCH_SIZE, 2)
  \<close>
\<close>

definition cell_1 :: "int list list list \<Rightarrow> notebook \<Rightarrow> error + notebook" where
  "cell_1 raw nb =
     (let training_data = map (map (\<lambda>row. unpackbits (map astype_uint8 row))) raw in
      bind_err (reshape (NUM_TRAIN_STEPS, BATCH_SIZE, 2)
                  (ravel (map (map (map (\<lambda>r. one_hot (r mod 2) 2))) raw))) (\<lambda>labels.
      Inr (nb\<lparr>RAW_TRAINING_DATA := raw, TRAINING_DATA := training_data, LABELS := labels\<rparr>)))"

section \<open>Network and loss (second cell)\<close>

text \<open>
  \<^verbatim>\<open>
  initial_params = {
      'hidden': jax.random.normal(shape=[8, 32], key=jax.random.PRNGKey(0)),
      'output': jax.random.normal(shape=[32, 2], key=jax.random.PRNGKey(1)),
  }
  \<close>
  The random generator is the parameter \<open>normal\<close>: it is given the requested shape and the
  seed of the key.
\<close>

definition cell_2 :: "(nat \<times> nat \<Rightarrow> nat \<Rightarrow> matrix) \<Rightarrow> notebook \<Rightarrow> notebook" where
  "cell_2 normal nb =
     nb\<lparr>initial_params := [''hidden'' \<mapsto> normal (8, 32) 0, ''output'' \<mapsto> normal (32, 2) 1]\<rparr>"

text \<open>\<^verbatim>\<open>jax.nn.relu\<close> is the element-wise maximum with 0.\<close>

definition relu :: "matrix \<Rightarrow> matrix" where
  "relu x = map (map (\<lambda>v. max v 0)) x"

text \<open>
  \<^verbatim>\<open>
  def net(x, params):
    x = jnp.dot(x, params['hidden'])
    x = jax.nn.relu(x)
    x = jnp.dot(x, params['output'])
    return x
  \<close>
\<close>

definition net :: "matrix \<Rightarrow> params \<Rightarrow> error + matrix" where
  "net x params =
     bind_err (getitem params ''hidden'') (\<lambda>hidden.
     bind_err (dot x hidden) (\<lambda>x1.
     let x2 = relu x1 in
     bind_err (getitem params ''output'') (\<lambda>output.
     dot x2 output)))"

text \<open>
  \<^verbatim>\<open>optax.sigmoid_binary_cross_entropy(logits, labels)\<close> applies one scalar formula to
  every pair of a logit and a label. The scalar formula belongs to the optimizer library
  and is the parameter \<open>xent\<close>.
\<close>

definition sigmoid_binary_cross_entropy ::
    "(real \<Rightarrow> real \<Rightarrow> real) \<Rightarrow> matrix \<Rightarrow> matrix \<Rightarrow> error + matrix" where
  "sigmoid_binary_cross_entropy xent logits labels = elementwise xent logits labels"

text \<open>
  \<^verbatim>\<open>
  def loss(params, batch, labels):
    y_hat = net(batch, params)
    loss_value = optax.sigmoid_binary_cross_entropy(y_hat, labels).sum(axis=-1)
    return loss_value.mean()
  \<close>
\<close>

definition loss :: "(real \<Rightarrow> real \<Rightarrow> real) \<Rightarrow> params \<Rightarrow> matrix \<Rightarrow> matrix \<Rightarrow> error + real" where
  "loss xent params batch labels =
     bind_err (net batch params) (\<lambda>y_hat.
     bind_err (sigmoid_binary_cross_entropy xent y_hat labels) (\<lambda>ce.
     let loss_value = sum_last_axis ce in
     Inr (mean loss_value)))"

section \<open>The training loop (third and fourth cell)\<close>

text \<open>
  An \<^verbatim>\<open>optax.GradientTransformation\<close> is a pair of functions: \<open>init\<close> makes the
  optimizer state for a parameter record, \<open>update\<close> turns gradients, the state and the
  parameters into updates and a new state. The optimizers themselves belong to the
  library; \<open>fit\<close> works with any such pair.
\<close>

record 's gradient_transformation =
  init :: "params \<Rightarrow> 's"
  update :: "params \<Rightarrow> 's \<Rightarrow> params \<Rightarrow> params \<times> 's"

text \<open>
  \<^verbatim>\<open>optax.apply_updates(params, updates)\<close> adds, key by key, the update to the
  parameter. The two records must have the same keys.
\<close>

definition apply_updates :: "params \<Rightarrow> params \<Rightarrow> error + params" where
  "apply_updates params updates =
     (if dom params \<noteq> dom updates then Inl StructureError
      else if \<exists>k \<in> dom params. \<exists>e. elementwise (+) (the (params k)) (the (updates k)) = Inl e
      then Inl ShapeError
      else Inr (\<lambda>k. case params k of
                      None \<Rightarrow> None
                    | Some p \<Rightarrow> (case elementwise (+) p (the (updates k)) of
                                  Inl e \<Rightarrow> None
                                | Inr m \<Rightarrow> Some m)))"

text \<open>
  \<^verbatim>\<open>jax.value_and_grad(f)(params, batch, labels)\<close> evaluates \<open>f\<close> and returns its value
  with its gradient with respect to \<open>params\<close>. The differentiation operator of the
  framework is the parameter \<open>grad\<close>.
\<close>

definition value_and_grad ::
    "((params \<Rightarrow> matrix \<Rightarrow> matrix \<Rightarrow> error + real) \<Rightarrow> params \<Rightarrow> matrix \<Rightarrow> matrix \<Rightarrow> params)
     \<Rightarrow> (params \<Rightarrow> matrix \<Rightarrow> matrix \<Rightarrow> error + real)
     \<Rightarrow> params \<Rightarrow> matrix \<Rightarrow> matrix \<Rightarrow> error + real \<times> params" where
  "value_and_grad grad f params batch labels =
     bind_err (f params batch labels) (\<lambda>v. Inr (v, grad f params batch labels))"

text \<open>
  The batches are uint8 arrays; \<^verbatim>\<open>jnp.dot\<close> promotes them to floating point, which is
  exact for the values 0 and 1.
\<close>

definition as_float :: "8 word list list \<Rightarrow> matrix" where
  "as_float batch = map (map (\<lambda>w. real (unat w))) batch"

text \<open>
  \<^verbatim>\<open>
  @jax.jit
  def step(params, opt_state, batch, labels):
    loss_value, grads = jax.value_and_grad(loss)(params, batch, labels)
    updates, opt_state = optimizer.update(grads, opt_state, params)
    params = optax.apply_updates(params, updates)
    return params, opt_state, loss_value
  \<close>
  \<open>step\<close> has no control flow that depends on a value, so the compiled function computes
  what the Python function computes.
\<close>

definition step ::
    "((params \<Rightarrow> matrix \<Rightarrow> matrix \<Rightarrow> error + real) \<Rightarrow> params \<Rightarrow> matrix \<Rightarrow> matrix \<Rightarrow> params)
     \<Rightarrow> (real \<Rightarrow> real \<Rightarrow> real) \<Rightarrow> 's gradient_transformation
     \<Rightarrow> params \<Rightarrow> 's \<Rightarrow> 8 word list list \<Rightarrow> matrix \<Rightarrow> error + params \<times> 's \<times> real" where
  "step grad xent optimizer params opt_state batch labels =
     bind_err (value_and_grad grad (loss xent) params (as_float batch) labels) (\<lambda>(loss_value, grads).
     case update optimizer grads opt_state params of (updates, opt_state') \<Rightarrow>
     bind_err (apply_updates params updates) (\<lambda>params'.
     Inr (params', opt_state', loss_value)))"

text \<open>
  \<^verbatim>\<open>
  for i, (batch, labels) in enumerate(zip(TRAINING_DATA, LABELS)):
    params, opt_state, loss_value = step(params, opt_state, batch, labels)
    if i % 100 == 0:
      print(f'step {i}, loss: {loss_value}')
  return params
  \<close>
  The loop, with the counter \<open>i\<close>, the pairs still to come and the lines printed so far.
  An exception in \<open>step\<close> ends the loop.
\<close>

fun fit_loop ::
    "(params \<Rightarrow> 's \<Rightarrow> 8 word list list \<Rightarrow> matrix \<Rightarrow> error + params \<times> 's \<times> real)
     \<Rightarrow> nat \<Rightarrow> (8 word list list \<times> matrix) list \<Rightarrow> params \<Rightarrow> 's \<Rightarrow> (nat \<times> real) list
     \<Rightarrow> (error + params) \<times> (nat \<times> real) list" where
  "fit_loop stp i [] params opt_state out = (Inr params, out)"
| "fit_loop stp i ((batch, labels) # rest) params opt_state out =
     (case stp params opt_state batch labels of
        Inl e \<Rightarrow> (Inl e, out)
      | Inr (params', opt_state', loss_value) \<Rightarrow>
          fit_loop stp (i + 1) rest params' opt_state'
            (if i mod 100 = 0 then out @ [(i, loss_value)] else out))"

text \<open>
  \<^verbatim>\<open>
  def fit(params, optimizer):
    opt_state = optimizer.init(params)
    ...
  \<close>
  \<open>fit\<close> reads the globals \<open>TRAINING_DATA\<close> and \<open>LABELS\<close> and prints; it returns its result
  and the notebook afterwards.
\<close>

definition fit ::
    "((params \<Rightarrow> matrix \<Rightarrow> matrix \<Rightarrow> error + real) \<Rightarrow> params \<Rightarrow> matrix \<Rightarrow> matrix \<Rightarrow> params)
     \<Rightarrow> (real \<Rightarrow> real \<Rightarrow> real) \<Rightarrow> params \<Rightarrow> 's gradient_transformation
     \<Rightarrow> notebook \<Rightarrow> (error + params) \<times> notebook" where
  "fit grad xent params optimizer nb =
     (let opt_state = init optimizer params in
      case fit_loop (step grad xent optimizer) 0 (zip (TRAINING_DATA nb) (LABELS nb))
             params opt_state (stdout nb) of
        (result, out) \<Rightarrow> (result, nb\<lparr>stdout := out\<rparr>))"

text \<open>
  Third cell: \<^verbatim>\<open>optimizer = optax.adam(learning_rate=1e-2)\<close>,
  \<^verbatim>\<open>params = fit(initial_params, optimizer)\<close>. Fourth cell: the same with
  \<^verbatim>\<open>optimizer = optax.chain(optax.clip(1.0), optax.adamw(learning_rate=schedule))\<close>.
  The value of each optimizer expression is an argument. A cell whose \<open>fit\<close> raises
  assigns nothing.
\<close>

definition cell_3 ::
    "((params \<Rightarrow> matrix \<Rightarrow> matrix \<Rightarrow> error + real) \<Rightarrow> params \<Rightarrow> matrix \<Rightarrow> matrix \<Rightarrow> params)
     \<Rightarrow> (real \<Rightarrow> real \<Rightarrow> real) \<Rightarrow> 's gradient_transformation
     \<Rightarrow> notebook \<Rightarrow> error option \<times> notebook" where
  "cell_3 grad xent adam nb =
     (case fit grad xent (initial_params nb) adam nb of
        (Inl e, nb') \<Rightarrow> (Some e, nb')
      | (Inr p, nb') \<Rightarrow> (None, nb'\<lparr>trained_params := Some p\<rparr>))"

definition cell_4 ::
    "((params \<Rightarrow> matrix \<Rightarrow> matrix \<Rightarrow> error + real) \<Rightarrow> params \<Rightarrow> matrix \<Rightarrow> matrix \<Rightarrow> params)
     \<Rightarrow> (real \<Rightarrow> real \<Rightarrow> real) \<Rightarrow> 's gradient_transformation
     \<Rightarrow> notebook \<Rightarrow> error option \<times> notebook" where
  "cell_4 grad xent clipped_adamw nb =
     (case fit grad xent (initial_params nb) clipped_adamw nb of
        (Inl e, nb') \<Rightarrow> (Some e, nb')
      | (Inr p, nb') \<Rightarrow> (None, nb'\<lparr>trained_params := Some p\<rparr>))"

text \<open>
  The shape invariant of the parameter record: exactly the keys \<open>hidden\<close> and \<open>output\<close>,
  holding an 8 by 32 and a 32 by 2 matrix. \<open>data_ok\<close> describes the training data the
  first cell builds: \<open>NUM_TRAIN_STEPS\<close> batches of \<open>BATCH_SIZE\<close> rows of 8 bits, with as
  many label arrays of \<open>BATCH_SIZE\<close> rows of 2 numbers.
\<close>

definition params_ok :: "params \<Rightarrow> bool" where
  "params_ok p =
     (dom p = {''hidden'', ''output''} \<and>
      (\<exists>hidden output. p ''hidden'' = Some hidden \<and> has_shape 8 32 hidden \<and>
                       p ''output'' = Some output \<and> has_shape 32 2 output))"

definition data_ok :: "notebook \<Rightarrow> bool" where
  "data_ok nb =
     (length (TRAINING_DATA nb) = NUM_TRAIN_STEPS \<and> length (LABELS nb) = NUM_TRAIN_STEPS \<and>
      (\<forall>batch \<in> set (TRAINING_DATA nb). has_shape BATCH_SIZE 8 batch) \<and>
      (\<forall>labels \<in> set (LABELS nb). has_shape BATCH_SIZE 2 labels))"

text \<open>
  What the training loop relies on from the framework: the gradient of a function of the
  parameter record has the keys and shapes of the record, and so have the updates an
  optimizer computes from such gradients.
\<close>

definition grad_keeps_shapes ::
    "((params \<Rightarrow> matrix \<Rightarrow> matrix \<Rightarrow> error + real) \<Rightarrow> params \<Rightarrow> matrix \<Rightarrow> matrix \<Rightarrow> params) \<Rightarrow> bool" where
  "grad_keeps_shapes grad = (\<forall>f p b l. params_ok p \<longrightarrow> params_ok (grad f p b l))"

definition optimizer_keeps_shapes :: "'s gradient_transformation \<Rightarrow> bool" where
  "optimizer_keeps_shapes optimizer =
     (\<forall>g s p. params_ok g \<longrightarrow> params_ok p \<longrightarrow> params_ok (fst (update optimizer g s p)))"

text \<open>\<^verbatim>\<open>jax.random.normal(shape=..., key=...)\<close> returns an array of the requested shape.\<close>

definition normal_returns_shape :: "(nat \<times> nat \<Rightarrow> nat \<Rightarrow> matrix) \<Rightarrow> bool" where
  "normal_returns_shape normal = (\<forall>r c seed. has_shape r c (normal (r, c) seed))"

section \<open>The jit notebook\<close>

subsection \<open>Python integers, arrays and tracers\<close>

text \<open>
  Modelled from the spec: \<open>jax.jit\<close> and the values it works with belong to the external
  framework and are not in the repository. The spec's glossary calls a tracer a
  placeholder value that records operations for later compilation; the notebook adds
  that a tracer under \<open>jit\<close> has a shape and a type but no concrete value, and its
  outputs show that integers become 32-bit arrays (\<^verbatim>\<open>Array(30, dtype=int32, weak_type=True)\<close>).

  An integer value of the notebook's functions is a Python integer (unbounded), a concrete
  int32 array, or a tracer carrying the expression recorded so far over the arguments
  of the function being traced. A truth value is a Python boolean, a concrete boolean
  array, or a traced comparison.
\<close>

datatype jexpr = Var nat | Lit "32 word" | Add jexpr jexpr | Mul jexpr jexpr

datatype jcond = Lt jexpr jexpr | Gt jexpr jexpr

datatype jax_array = Array "32 word" | Tracer jexpr

datatype pyint = PyInt int | Jax jax_array

datatype pybool = PyBool bool | ArrayB bool | TracerB jcond

text \<open>
  Modelled from the spec: the framework turns a Python integer that meets an array or a
  tracer into an int32 array and refuses one outside the int32 range.
\<close>

definition in_int32 :: "int \<Rightarrow> bool" where
  "in_int32 k = (- (2 ^ 31) \<le> k \<and> k < 2 ^ 31)"

definition as_int32 :: "int \<Rightarrow> error + 32 word" where
  "as_int32 k = (if in_int32 k then Inr (word_of_int k) else Inl OverflowError)"

fun jax_operand :: "pyint \<Rightarrow> error + jax_array" where
  "jax_operand (PyInt k) = bind_err (as_int32 k) (\<lambda>w. Inr (Array w))"
| "jax_operand (Jax a) = Inr a"

fun expr_of :: "jax_array \<Rightarrow> jexpr" where
  "expr_of (Array w) = Lit w"
| "expr_of (Tracer e) = e"

text \<open>
  Modelled from the spec: an operation on concrete arrays is computed at once, in int32
  arithmetic (which wraps around); an operation with a tracer is recorded.
\<close>

fun jax_add :: "jax_array \<Rightarrow> jax_array \<Rightarrow> jax_array" where
  "jax_add (Array a) (Array b) = Array (a + b)"
| "jax_add a b = Tracer (Add (expr_of a) (expr_of b))"

fun jax_mul :: "jax_array \<Rightarrow> jax_array \<Rightarrow> jax_array" where
  "jax_mul (Array a) (Array b) = Array (a * b)"
| "jax_mul a b = Tracer (Mul (expr_of a) (expr_of b))"

fun jax_lt :: "jax_array \<Rightarrow> jax_array \<Rightarrow> pybool" where
  "jax_lt (Array a) (Array b) = ArrayB (sint a < sint b)"
| "jax_lt a b = TracerB (Lt (expr_of a) (expr_of b))"

fun jax_gt :: "jax_array \<Rightarrow> jax_array \<Rightarrow> pybool" where
  "jax_gt (Array a) (Array b) = ArrayB (sint a > sint b)"
| "jax_gt a b = TracerB (Gt (expr_of a) (expr_of b))"

text \<open>
  Python's \<^verbatim>\<open>+\<close>, \<^verbatim>\<open>*\<close>, \<^verbatim>\<open><\<close> and \<^verbatim>\<open>>\<close>: on two Python integers they are the
  integer operations; otherwise the framework's operation on both operands as arrays.
\<close>

fun py_add :: "pyint \<Rightarrow> pyint \<Rightarrow> error + pyint" where
  "py_add (PyInt a) (PyInt b) = Inr (PyInt (a + b))"
| "py_add a b = bind_err (jax_operand a) (\<lambda>x. bind_err (jax_operand b) (\<lambda>y. Inr (Jax (jax_add x y))))"

fun py_mul :: "pyint \<Rightarrow> pyint \<Rightarrow> error + pyint" where
  "py_mul (PyInt a) (PyInt b) = Inr (PyInt (a * b))"
| "py_mul a b = bind_err (jax_operand a) (\<lambda>x. bind_err (jax_operand b) (\<lambda>y. Inr (Jax (jax_mul x y))))"

fun py_lt :: "pyint \<Rightarrow> pyint \<Rightarrow> error + pybool" where
  "py_lt (PyInt a) (PyInt b) = Inr (PyBool (a < b))"
| "py_lt a b = bind_err (jax_operand a) (\<lambda>x. bind_err (jax_operand b) (\<lambda>y. Inr (jax_lt x y)))"

fun py_gt :: "pyint \<Rightarrow> pyint \<Rightarrow> error + pybool" where
  "py_gt (PyInt a) (PyInt b) = Inr (PyBool (a > b))"
| "py_gt a b = bind_err (jax_operand a) (\<lambda>x. bind_err (jax_operand b) (\<lambda>y. Inr (jax_gt x y)))"

text \<open>
  Modelled from the spec: \<^verbatim>\<open>if\<close> and \<^verbatim>\<open>while\<close> ask for the truth value of their
  condition. A traced condition has none: branching on a traced value, or bounding a
  native loop by one, fails with \<open>ConcretizationTypeError\<close>.
\<close>

fun py_bool :: "pybool \<Rightarrow> error + bool" where
  "py_bool (PyBool b) = Inr b"
| "py_bool (ArrayB b) = Inr b"
| "py_bool (TracerB c) = Inl ConcretizationTypeError"

subsection \<open>Tracing and compiling\<close>

text \<open>
  Modelled from the spec: the recorded expression is what the compiler keeps of a
  function; running the compiled function evaluates it on the concrete int32 arguments.
\<close>

fun eval_jexpr :: "32 word list \<Rightarrow> jexpr \<Rightarrow> 32 word" where
  "eval_jexpr args (Var k) = (if k < length args then args ! k else 0)"
| "eval_jexpr args (Lit w) = w"
| "eval_jexpr args (Add a b) = eval_jexpr args a + eval_jexpr args b"
| "eval_jexpr args (Mul a b) = eval_jexpr args a * eval_jexpr args b"

definition compiled_output :: "32 word list \<Rightarrow> pyint \<Rightarrow> error + pyint" where
  "compiled_output args out =
     bind_err (jax_operand out) (\<lambda>a. Inr (Jax (Array (eval_jexpr args (expr_of a)))))"

text \<open>
  Modelled from the spec: \<open>jax.jit(fn)\<close> called on one argument. The argument becomes an
  int32 array, \<open>fn\<close> is run once on a tracer in its place, and the recorded expression is
  evaluated on the argument. Inside another trace the argument is already a tracer and
  \<open>fn\<close> records into it.
\<close>

definition jit1 :: "(pyint \<Rightarrow> error + pyint) \<Rightarrow> pyint \<Rightarrow> error + pyint" where
  "jit1 fn x =
     bind_err (jax_operand x) (\<lambda>a.
       case a of
         Tracer e \<Rightarrow> fn (Jax a)
       | Array w \<Rightarrow> bind_err (fn (Jax (Tracer (Var 0)))) (compiled_output [w]))"

text \<open>
  Modelled from the spec: \<open>jax.jit(fn, static_argnums=0)\<close> called on a Python integer. A
  static argument is not traced: \<open>fn\<close> runs on the Python value itself.
\<close>

definition jit1_static :: "(pyint \<Rightarrow> error + pyint) \<Rightarrow> int \<Rightarrow> error + pyint" where
  "jit1_static fn k = bind_err (fn (PyInt k)) (compiled_output [])"

text \<open>
  Modelled from the spec: \<open>jax.jit(fn)\<close> for a function of two arguments, called on two
  Python integers, and \<open>jax.jit(fn, static_argnames=[...])\<close> with the second argument
  static.
\<close>

definition jit2 :: "(pyint \<Rightarrow> pyint \<Rightarrow> error + pyint) \<Rightarrow> int \<Rightarrow> int \<Rightarrow> error + pyint" where
  "jit2 fn x n =
     bind_err (as_int32 x) (\<lambda>wx.
     bind_err (as_int32 n) (\<lambda>wn.
     bind_err (fn (Jax (Tracer (Var 0))) (Jax (Tracer (Var 1)))) (compiled_output [wx, wn])))"

definition jit2_static2 :: "(pyint \<Rightarrow> pyint \<Rightarrow> error + pyint) \<Rightarrow> int \<Rightarrow> int \<Rightarrow> error + pyint" where
  "jit2_static2 fn x n =
     bind_err (as_int32 x) (\<lambda>wx.
     bind_err (fn (Jax (Tracer (Var 0))) (PyInt n)) (compiled_output [wx]))"

subsection \<open>The functions of the notebook\<close>

text \<open>
  \<^verbatim>\<open>
  def f(x):
    if x > 0:
      return x
    else:
      return 2 * x
  \<close>
\<close>

definition f :: "pyint \<Rightarrow> error + pyint" where
  "f x =
     bind_err (py_gt x (PyInt 0)) (\<lambda>c.
     bind_err (py_bool c) (\<lambda>b.
     if b then Inr x else py_mul (PyInt 2) x))"

text \<open>
  The integer a value stands for, where it has one; it orders the loops below.
\<close>

fun int_value :: "pyint \<Rightarrow> int option" where
  "int_value (PyInt k) = Some k"
| "int_value (Jax (Array w)) = Some (sint w)"
| "int_value (Jax (Tracer e)) = None"

text \<open>
  \<^verbatim>\<open>
  def g(x, n):
    i = 0
    while i < n:
      i += 1
    return x + i
  \<close>
  \<open>g_while i n\<close> is the loop from the state \<open>i\<close>.
\<close>

function g_while :: "pyint \<Rightarrow> pyint \<Rightarrow> error + pyint" where
  "g_while i n =
     (case bind_err (py_lt i n) py_bool of
        Inl e \<Rightarrow> Inl e
      | Inr b \<Rightarrow>
          if b then (case py_add i (PyInt 1) of Inl e \<Rightarrow> Inl e | Inr i' \<Rightarrow> g_while i' n)
          else Inr i)"
  by pat_completeness auto


definition g :: "pyint \<Rightarrow> pyint \<Rightarrow> error + pyint" where
  "g x n = bind_err (g_while (PyInt 0) n) (\<lambda>i. py_add x i)"

text \<open>
  \<^verbatim>\<open>
  @jax.jit
  def loop_body(prev_i):
    return prev_i + 1

  def g_inner_jitted(x, n):
    i = 0
    while i < n:
      i = loop_body(i)
    return x + i
  \<close>
\<close>

definition loop_body :: "pyint \<Rightarrow> error + pyint" where
  "loop_body = jit1 (\<lambda>prev_i. py_add prev_i (PyInt 1))"

function g_inner_while :: "pyint \<Rightarrow> pyint \<Rightarrow> error + pyint" where
  "g_inner_while i n =
     (case bind_err (py_lt i n) py_bool of
        Inl e \<Rightarrow> Inl e
      | Inr b \<Rightarrow>
          if b then (case loop_body i of Inl e \<Rightarrow> Inl e | Inr i' \<Rightarrow> g_inner_while i' n)
          else Inr i)"
  by pat_completeness auto

definition g_inner_jitted :: "pyint \<Rightarrow> pyint \<Rightarrow> error + pyint" where
  "g_inner_jitted x n = bind_err (g_inner_while (PyInt 0) n) (\<lambda>i. py_add x i)"

text \<open>
  \<^verbatim>\<open>f_jit = jax.jit(f)\<close>, \<^verbatim>\<open>g_jit = jax.jit(g)\<close>,
  \<^verbatim>\<open>f_jit_correct = jax.jit(f, static_argnums=0)\<close>,
  \<^verbatim>\<open>g_jit_correct = jax.jit(g, static_argnames=['n'])\<close>.
\<close>

definition f_jit :: "pyint \<Rightarrow> error + pyint" where
  "f_jit = jit1 f"

definition g_jit :: "int \<Rightarrow> int \<Rightarrow> error + pyint" where
  "g_jit = jit2 g"

definition f_jit_correct :: "int \<Rightarrow> error + pyint" where
  "f_jit_correct = jit1_static f"

definition g_jit_correct :: "int \<Rightarrow> int \<Rightarrow> error + pyint" where
  "g_jit_correct = jit2_static2 g"

section \<open>Termination of the two loops\<close>

text \<open>
  Both loops end: while the test holds, the counter stands for an integer below the
  bound, and the increment does not wrap around. In \<open>g_inner_jitted\<close> the counter is
  a Python integer only before the first round.
\<close>

lemma sint_word_of_int_32: "in_int32 k \<Longrightarrow> sint (word_of_int k :: 32 word) = k"
  by (simp add: in_int32_def signed_of_int signed_take_bit_int_eq_self)

lemma sint_in_int32: "in_int32 (sint (w :: 32 word))"
  using sint_ge [of w] sint_lt [of w] by (simp add: in_int32_def)

lemma sint_succ_32:
  fixes w :: "32 word"
  assumes "sint w < b" "b < 2 ^ 31"
  shows "sint (w + 1) = sint w + 1"
proof -
  have "- (2 ^ 31) \<le> sint w" using sint_ge [of w] by simp
  with assms have r: "in_int32 (sint w + 1)" by (simp add: in_int32_def)
  have "w + 1 = word_of_int (sint w + 1)" by simp
  then show ?thesis using sint_word_of_int_32 [OF r] by simp
qed

lemma jax_operand_value:
  "jax_operand v = Inr (Array w) \<Longrightarrow> int_value v = Some (sint w)"
  by (cases v) (auto simp: bind_err_def as_int32_def sint_word_of_int_32 split: if_splits)

lemma jax_operand_Tracer:
  "jax_operand v = Inr (Tracer e) \<Longrightarrow> v = Jax (Tracer e)"
  by (cases v) (auto simp: bind_err_def as_int32_def split: if_splits)

lemma loop_test_true:
  assumes "bind_err (py_lt i n) py_bool = Inr True"
  shows "\<exists>a b. int_value i = Some a \<and> int_value n = Some b \<and> a < b
               \<and> ((\<exists>k. i = PyInt k) \<and> (\<exists>k. n = PyInt k) \<or> b < 2 ^ 31)"
proof (cases "(\<exists>k. i = PyInt k) \<and> (\<exists>k. n = PyInt k)")
  case True
  then obtain a b where "i = PyInt a" "n = PyInt b" by blast
  with assms show ?thesis by (simp add: bind_err_def)
next
  case False
  then have lt: "py_lt i n = bind_err (jax_operand i) (\<lambda>x. bind_err (jax_operand n) (\<lambda>y. Inr (jax_lt x y)))"
    by (cases i; cases n) simp_all
  from assms obtain x y where x: "jax_operand i = Inr x" and y: "jax_operand n = Inr y"
    and t: "py_bool (jax_lt x y) = Inr True"
    unfolding lt by (auto simp: bind_err_def split: sum.splits)
  from t obtain v w where xy: "x = Array v" "y = Array w" and vw: "sint v < sint w"
    by (cases x; cases y) simp_all
  from x y xy have "int_value i = Some (sint v)" "int_value n = Some (sint w)"
    by (simp_all add: jax_operand_value)
  moreover have "sint w < 2 ^ 31" using sint_lt [of w] by simp
  ultimately show ?thesis using vw by blast
qed

lemma loop_increment:
  assumes add: "py_add i (PyInt 1) = Inr i'" and a: "int_value i = Some a"
    and r: "(\<exists>k. i = PyInt k) \<or> a < b \<and> b < 2 ^ 31"
  shows "int_value i' = Some (a + 1) \<and> ((\<exists>k. i = PyInt k) \<longrightarrow> (\<exists>k. i' = PyInt k))"
proof (cases i)
  case (PyInt k)
  with add a show ?thesis by auto
next
  case (Jax x)
  with a obtain v where v: "x = Array v" "a = sint v" by (cases x) simp_all
  with Jax add have "i' = Jax (Array (v + 1))"
    by (auto simp: bind_err_def as_int32_def in_int32_def)
  moreover from r Jax v have "sint (v + 1) = sint v + 1"
    by (intro sint_succ_32 [of v b]) auto
  ultimately show ?thesis using v Jax by simp
qed

termination g_while
proof (relation "measure (\<lambda>(i, n). case int_value n of None \<Rightarrow> 0
                    | Some b \<Rightarrow> (case int_value i of None \<Rightarrow> 0 | Some a \<Rightarrow> nat (b - a)))")
  show "wf (measure (\<lambda>(i, n). case int_value n of None \<Rightarrow> 0
                    | Some b \<Rightarrow> (case int_value i of None \<Rightarrow> 0 | Some a \<Rightarrow> nat (b - a))))"
    by simp
next
  fix i n :: pyint and b :: bool and i' :: pyint
  assume t: "bind_err (py_lt i n) py_bool = Inr b" and b: "b"
    and add: "py_add i (PyInt 1) = Inr i'"
  from t b have "bind_err (py_lt i n) py_bool = Inr True" by simp
  from loop_test_true [OF this]
  obtain a c where a: "int_value i = Some a" and c: "int_value n = Some c" and ac: "a < c"
    and r: "(\<exists>k. i = PyInt k) \<and> (\<exists>k. n = PyInt k) \<or> c < 2 ^ 31"
    by blast
  from r ac have "(\<exists>k. i = PyInt k) \<or> a < c \<and> c < 2 ^ 31" by blast
  from loop_increment [OF add a this] have "int_value i' = Some (a + 1)" by simp
  with a c ac
  show "((i', n), (i, n)) \<in> measure (\<lambda>(i, n). case int_value n of None \<Rightarrow> 0
                    | Some b \<Rightarrow> (case int_value i of None \<Rightarrow> 0 | Some a \<Rightarrow> nat (b - a)))"
    by simp
qed


declare g_while.simps [simp del]

lemma as_int32_small: "as_int32 0 = Inr 0" "as_int32 1 = Inr 1" "as_int32 2 = Inr 2"
  by (simp_all add: as_int32_def in_int32_def)

lemma as_int32_in: "in_int32 k \<Longrightarrow> as_int32 k = Inr (word_of_int k)"
  by (simp add: as_int32_def)

lemma loop_body_PyInt:
  "in_int32 k \<Longrightarrow> loop_body (PyInt k) = Inr (Jax (Array (word_of_int k + 1)))"
  by (simp add: loop_body_def jit1_def bind_err_def as_int32_in as_int32_small compiled_output_def)

lemma loop_body_Array: "loop_body (Jax (Array v)) = Inr (Jax (Array (v + 1)))"
  by (simp add: loop_body_def jit1_def bind_err_def as_int32_small compiled_output_def)

lemma loop_body_result:
  assumes "loop_body i = Inr i'" and "int_value i = Some a"
  shows "\<exists>v. i' = Jax (Array v) \<and> (\<forall>w. i = Jax (Array w) \<longrightarrow> v = w + 1)"
proof (cases i)
  case (PyInt k)
  with assms show ?thesis
    by (cases "in_int32 k")
       (auto simp: loop_body_PyInt, auto simp: loop_body_def jit1_def bind_err_def as_int32_def)
next
  case (Jax x)
  with assms obtain w where "x = Array w" by (cases x) simp_all
  with Jax assms show ?thesis by (simp add: loop_body_Array)
qed

termination g_inner_while
proof (relation "measures [\<lambda>(i, n). case i of PyInt k \<Rightarrow> 1 | Jax a \<Rightarrow> 0,
                            \<lambda>(i, n). case int_value n of None \<Rightarrow> 0
                    | Some b \<Rightarrow> (case int_value i of None \<Rightarrow> 0 | Some a \<Rightarrow> nat (b - a))]")
  show "wf (measures [\<lambda>(i, n). case i of PyInt k \<Rightarrow> 1 | Jax a \<Rightarrow> 0,
                            \<lambda>(i, n). case int_value n of None \<Rightarrow> 0
                    | Some b \<Rightarrow> (case int_value i of None \<Rightarrow> 0 | Some a \<Rightarrow> nat (b - a))])"
    by simp
next
  fix i n :: pyint and b :: bool and i' :: pyint
  assume t: "bind_err (py_lt i n) py_bool = Inr b" and b: "b"
    and lb: "loop_body i = Inr i'"
  from t b have "bind_err (py_lt i n) py_bool = Inr True" by simp
  from loop_test_true [OF this]
  obtain a c where a: "int_value i = Some a" and c: "int_value n = Some c" and ac: "a < c"
    and r: "(\<exists>k. i = PyInt k) \<and> (\<exists>k. n = PyInt k) \<or> c < 2 ^ 31"
    by blast
  from loop_body_result [OF lb a]
  obtain v where v: "i' = Jax (Array v)" and vw: "\<forall>w. i = Jax (Array w) \<longrightarrow> v = w + 1"
    by blast
  show "((i', n), (i, n)) \<in> measures [\<lambda>(i, n). case i of PyInt k \<Rightarrow> 1 | Jax a \<Rightarrow> 0,
                            \<lambda>(i, n). case int_value n of None \<Rightarrow> 0
                    | Some b \<Rightarrow> (case int_value i of None \<Rightarrow> 0 | Some a \<Rightarrow> nat (b - a))]"
  proof (cases i)
    case (PyInt k)
    with v show ?thesis by simp
  next
    case (Jax x)
    with a obtain w where w: "x = Array w" "a = sint w" by (cases x) simp_all
    with Jax vw have "v = w + 1" by simp
    moreover from r Jax have "c < 2 ^ 31" by simp
    with ac w have "sint (w + 1) = sint w + 1" by (intro sint_succ_32 [of w c]) simp_all
    ultimately show ?thesis using v Jax w c ac by simp
  qed
qed


declare g_inner_while.simps [simp del]

section \<open>Properties of the training data\<close>

lemma upt8: "[0..<8] = [0, 1, 2, 3, 4, 5, 6, 7::nat]"
  by code_simp

lemma concat_nth_uniform:
  "\<forall>xs \<in> set xss. length xs = c \<Longrightarrow> i < length xss \<Longrightarrow> k < c \<Longrightarrow>
   concat xss ! (i * c + k) = xss ! i ! k"
proof (induction xss arbitrary: i)
  case Nil
  then show ?case by simp
next
  case (Cons xs xss)
  show ?case
  proof (cases i)
    case 0
    with Cons.prems show ?thesis by (simp add: nth_append)
  next
    case (Suc j)
    with Cons.prems have "concat xss ! (j * c + k) = xss ! j ! k"
      by (intro Cons.IH) auto
    with Suc Cons.prems show ?thesis by (simp add: nth_append)
  qed
qed

lemma length_concat_uniform:
  "\<forall>xs \<in> set xss. length xs = c \<Longrightarrow> length (concat xss) = length xss * c"
  by (induction xss) auto

lemma unpack_byte_bits:
  "unpack_byte (astype_uint8 r) = map (\<lambda>k. word_of_int (r div 2 ^ (7 - k) mod 2)) [0..<8]"
proof -
  have b: "(if bit (word_of_int r :: 8 word) k then 1 else 0) = (word_of_int (r div 2 ^ k mod 2) :: 8 word)"
    if "k < 8" for k
  proof -
    have "bit (word_of_int r :: 8 word) k = bit r k"
      using that by (simp add: bit_word_of_int_iff)
    also have "\<dots> = odd (r div 2 ^ k)"
      by (rule bit_iff_odd)
    finally show ?thesis by (simp add: mod_2_eq_odd)
  qed
  show ?thesis
    unfolding unpack_byte_def astype_uint8_def upt8 by (simp add: b)
qed

lemma bits_decode:
  assumes "0 \<le> r" "r < 256"
  shows "(\<Sum>k<8. (r div 2 ^ (7 - k) mod 2) * 2 ^ (7 - k)) = (r::int)"
proof -
  have "(\<Sum>n<8. of_bool (bit r n) * 2 ^ n) = take_bit 8 r"
    using horner_sum_bit_eq_take_bit [of r 8]
    by (simp add: horner_sum_eq_sum atLeast0LessThan)
  moreover have "take_bit 8 r = r"
    using assms by (simp add: take_bit_int_eq_self)
  moreover have "of_bool (bit r n) = r div 2 ^ n mod 2" for n
    by (simp add: bit_iff_odd mod_2_eq_odd)
  ultimately have "(\<Sum>n<8. (r div 2 ^ n mod 2) * 2 ^ n) = r" by simp
  moreover have "(\<Sum>k<8. (r div 2 ^ (7 - k) mod 2) * 2 ^ (7 - k)) = (\<Sum>n<8. (r div 2 ^ n mod 2) * 2 ^ n)"
    by (simp add: lessThan_nat_numeral lessThan_Suc)
  ultimately show ?thesis by simp
qed


lemma ravel_nth:
  assumes n: "length a = n"
    and b: "\<forall>x \<in> set a. length x = b"
    and c: "\<forall>x \<in> set a. \<forall>y \<in> set x. length y = c"
    and d: "\<forall>x \<in> set a. \<forall>y \<in> set x. \<forall>z \<in> set y. length z = d"
    and i: "i < n" and j: "j < b" and k: "k < c" and l: "l < d"
  shows "ravel a ! (((i * b + j) * c + k) * d + l) = a ! i ! j ! k ! l"
proof -
  have len1: "length (concat a) = n * b"
    using length_concat_uniform [OF b] n by simp
  have ij: "i * b + j < n * b"
  proof -
    have "i * b + j < Suc i * b" using j by simp
    also have "\<dots> \<le> n * b" using i by (intro mult_le_mono1) simp
    finally show ?thesis .
  qed
  have c': "\<forall>y \<in> set (concat a). length y = c"
    using c by auto
  have len2: "length (concat (concat a)) = n * b * c"
    using length_concat_uniform [OF c'] len1 by simp
  have ijk: "(i * b + j) * c + k < n * b * c"
  proof -
    have "(i * b + j) * c + k < Suc (i * b + j) * c" using k by simp
    also have "\<dots> \<le> (n * b) * c" using ij by (intro mult_le_mono1) simp
    finally show ?thesis .
  qed
  have d': "\<forall>z \<in> set (concat (concat a)). length z = d"
    using d by auto
  have "ravel a ! (((i * b + j) * c + k) * d + l) = concat (concat a) ! ((i * b + j) * c + k) ! l"
    unfolding ravel_def using d' ijk l len2 by (intro concat_nth_uniform) simp_all
  also have "concat (concat a) ! ((i * b + j) * c + k) = concat a ! (i * b + j) ! k"
    using c' ij k len1 by (intro concat_nth_uniform) simp_all
  also have "concat a ! (i * b + j) = a ! i ! j"
    using b i j n by (intro concat_nth_uniform) simp_all
  finally show ?thesis .
qed

lemma length_ravel:
  assumes n: "length a = n"
    and b: "\<forall>x \<in> set a. length x = b"
    and c: "\<forall>x \<in> set a. \<forall>y \<in> set x. length y = c"
    and d: "\<forall>x \<in> set a. \<forall>y \<in> set x. \<forall>z \<in> set y. length z = d"
  shows "length (ravel a) = n * b * c * d"
proof -
  have len1: "length (concat a) = n * b"
    using length_concat_uniform [OF b] n by simp
  have c': "\<forall>y \<in> set (concat a). length y = c"
    using c by auto
  have len2: "length (concat (concat a)) = n * b * c"
    using length_concat_uniform [OF c'] len1 by simp
  have d': "\<forall>z \<in> set (concat (concat a)). length z = d"
    using d by auto
  show ?thesis
    unfolding ravel_def using length_concat_uniform [OF d'] len2 by simp
qed

lemma one_hot_2: "one_hot x 2 = [if x = 0 then 1 else 0, if x = 1 then 1 else 0]"
proof -
  have "[0..<2] = [0, 1::nat]" by code_simp
  then show ?thesis by (simp add: one_hot_def)
qed

text \<open>
  Claim C1. For every array that \<open>np.random.randint(255, ...)\<close> can return, every training
  example is the eight bits of its integer \<open>r\<close>, most significant bit first (the bits
  decode back to \<open>r\<close>, which lies in the range from 0 to 254); its label is the vector
  \<open>[1, 0]\<close> when \<open>r\<close> is even and \<open>[0, 1]\<close> when \<open>r\<close> is odd, the one-hot encoding of
  \<open>r mod 2\<close> over two classes; and the last (least significant) bit of the feature vector is
  \<open>r mod 2\<close>, so the label has its 1 at the position the last bit names and 0 at the other.
\<close>

theorem training_example_bits_and_parity_label:
  assumes raw: "randint_output 255 (NUM_TRAIN_STEPS, BATCH_SIZE, 1) raw"
  shows "\<exists>nb'. cell_1 raw nb = Inr nb'
      \<and> length (TRAINING_DATA nb') = NUM_TRAIN_STEPS \<and> length (LABELS nb') = NUM_TRAIN_STEPS
      \<and> (\<forall>s<NUM_TRAIN_STEPS.
            length (TRAINING_DATA nb' ! s) = BATCH_SIZE \<and> length (LABELS nb' ! s) = BATCH_SIZE
          \<and> (\<forall>b<BATCH_SIZE.
               (let r = raw ! s ! b ! 0; x = TRAINING_DATA nb' ! s ! b; y = LABELS nb' ! s ! b
                in 0 \<le> r \<and> r < 255
                 \<and> x = map (\<lambda>k. word_of_int (r div 2 ^ (7 - k) mod 2)) [0..<8]
                 \<and> (\<Sum>k<8. uint (x ! k) * 2 ^ (7 - k)) = r
                 \<and> y = (if r mod 2 = 0 then [1, 0] else [0, 1])
                 \<and> uint (last x) = r mod 2
                 \<and> length y = 2
                 \<and> y ! nat (uint (last x)) = 1
                 \<and> y ! (1 - nat (uint (last x))) = 0)))"
proof -
  let ?N = NUM_TRAIN_STEPS and ?B = BATCH_SIZE
  let ?a = "map (map (map (\<lambda>r. one_hot (r mod 2) 2))) raw"
  let ?flat = "ravel ?a"
  let ?data = "map (map (\<lambda>row. unpackbits (map astype_uint8 row))) raw"
  let ?labels = "map (\<lambda>i. map (\<lambda>j. map (\<lambda>k. ?flat ! ((i * ?B + j) * 2 + k)) [0..<2]) [0..<?B]) [0..<?N]"
  from raw have n: "length raw = ?N"
    and b: "\<forall>batch \<in> set raw. length batch = ?B"
    and c: "\<forall>batch \<in> set raw. \<forall>row \<in> set batch. length row = 1"
    and rng: "\<forall>batch \<in> set raw. \<forall>row \<in> set batch. \<forall>r \<in> set row. 0 \<le> r \<and> r < 255"
    by (auto simp: randint_output_def)
  have an: "length ?a = ?N" using n by simp
  have ab: "\<forall>x \<in> set ?a. length x = ?B" using b by auto
  have ac: "\<forall>x \<in> set ?a. \<forall>y \<in> set x. length y = 1" using c by auto
  have ad: "\<forall>x \<in> set ?a. \<forall>y \<in> set x. \<forall>z \<in> set y. length z = 2"
    by (auto simp: one_hot_def)
  have "length ?flat = ?N * ?B * 1 * 2"
    using an ab ac ad by (rule length_ravel)
  then have L: "cell_1 raw nb
      = Inr (nb\<lparr>RAW_TRAINING_DATA := raw, TRAINING_DATA := ?data, LABELS := ?labels\<rparr>)"
    by (simp add: cell_1_def reshape_def bind_err_def)
  have ex: "(let r = raw ! s ! b ! 0; x = ?data ! s ! b; y = ?labels ! s ! b
             in 0 \<le> r \<and> r < 255
              \<and> x = map (\<lambda>k. word_of_int (r div 2 ^ (7 - k) mod 2)) [0..<8]
              \<and> (\<Sum>k<8. uint (x ! k) * 2 ^ (7 - k)) = r
              \<and> y = (if r mod 2 = 0 then [1, 0] else [0, 1])
              \<and> uint (last x) = r mod 2
              \<and> length y = 2
              \<and> y ! nat (uint (last x)) = 1
              \<and> y ! (1 - nat (uint (last x))) = 0)"
    if s: "s < ?N" and bb: "b < ?B" for s b
  proof -
    define r where "r = raw ! s ! b ! 0"
    have batch: "raw ! s \<in> set raw" using s n by simp
    then have row: "raw ! s ! b \<in> set (raw ! s)" using b bb by simp
    have len_row: "length (raw ! s ! b) = 1" using c batch row by blast
    then have row_eq: "raw ! s ! b = [r]"
      unfolding r_def by (cases "raw ! s ! b") simp_all
    then have "r \<in> set (raw ! s ! b)" by simp
    with rng batch row have r0: "0 \<le> r" and r255: "r < 255" by blast+
    have x: "?data ! s ! b = map (\<lambda>k. word_of_int (r div 2 ^ (7 - k) mod 2)) [0..<8]"
      using s n bb b batch row_eq
      by (simp add: unpackbits_def unpack_byte_bits)
    have bitval: "uint (word_of_int (r div 2 ^ m mod 2) :: 8 word) = r div 2 ^ m mod 2" for m
    proof -
      have "0 \<le> r div 2 ^ m mod 2" "r div 2 ^ m mod 2 < 2" by simp_all
      then show ?thesis by (simp add: uint_word_of_int take_bit_int_eq_self)
    qed
    have dec: "(\<Sum>k<8. uint (?data ! s ! b ! k) * 2 ^ (7 - k)) = r"
    proof -
      have "(\<Sum>k<8. uint (?data ! s ! b ! k) * 2 ^ (7 - k))
            = (\<Sum>k<8. (r div 2 ^ (7 - k) mod 2) * 2 ^ (7 - k))"
        by (rule sum.cong) (simp_all add: x bitval del: upt_Suc)
      then show ?thesis using bits_decode [of r] r0 r255 by simp
    qed
    have lastx: "uint (last (?data ! s ! b)) = r mod 2"
      using bitval [of 0] by (simp add: x upt8)
    have y: "?labels ! s ! b = one_hot (r mod 2) 2"
    proof -
      have el: "?flat ! ((s * ?B + b) * 2 + k) = one_hot (r mod 2) 2 ! k" if "k < 2" for k
      proof -
        have "?flat ! (((s * ?B + b) * 1 + 0) * 2 + k) = ?a ! s ! b ! 0 ! k"
          using an ab ac ad s bb _ that by (rule ravel_nth) simp
        moreover have "?a ! s ! b ! 0 = one_hot (r mod 2) 2"
          using s n bb b batch row_eq by simp
        ultimately show ?thesis by simp
      qed
      have "?labels ! s ! b = map (\<lambda>k. ?flat ! ((s * ?B + b) * 2 + k)) [0..<2]"
        using s bb by simp
      also have "\<dots> = map (\<lambda>k. one_hot (r mod 2) 2 ! k) [0..<2]"
      proof (rule map_cong [OF refl])
        fix k :: nat
        assume "k \<in> set [0..<2]"
        then have "k < 2" by simp
        from el [OF this]
        show "?flat ! ((s * ?B + b) * 2 + k) = one_hot (r mod 2) 2 ! k" .
      qed
      also have "\<dots> = one_hot (r mod 2) 2"
        using map_nth [of "one_hot (r mod 2) 2"] by (simp add: one_hot_def)
      finally show ?thesis .
    qed
    have parity: "r mod 2 = 0 \<or> r mod 2 = 1" by presburger
    have oh: "one_hot (r mod 2) 2 = (if r mod 2 = 0 then [1, 0] else [0, 1])"
      using parity by (auto simp: one_hot_2)
    have y': "?labels ! s ! b = (if r mod 2 = 0 then [1, 0] else [0, 1])"
      by (simp only: y oh)
    have cls: "length (?labels ! s ! b) = 2
         \<and> ?labels ! s ! b ! nat (uint (last (?data ! s ! b))) = 1
         \<and> ?labels ! s ! b ! (1 - nat (uint (last (?data ! s ! b)))) = 0"
      unfolding y' lastx using parity by auto
    show ?thesis
      unfolding Let_def r_def [symmetric] using r0 r255 x dec y' lastx cls by simp
  qed
  have lens: "length (?data ! s) = ?B \<and> length (?labels ! s) = ?B" if "s < ?N" for s
    using that n b by simp
  show ?thesis
    unfolding L using n ex lens by simp
qed

theorem training_example_bits_and_parity_label_witness:
  "randint_output 255 (NUM_TRAIN_STEPS, BATCH_SIZE, 1)
     (map (\<lambda>s. map (\<lambda>b. [int ((7 * s + 13 * b) mod 255)]) [0..<5]) [0..<1000])
   \<and> (\<exists>nb'. cell_1 (map (\<lambda>s. map (\<lambda>b. [int ((7 * s + 13 * b) mod 255)]) [0..<5]) [0..<1000])
               \<lparr>RAW_TRAINING_DATA = [], TRAINING_DATA = [], LABELS = [], initial_params = Map.empty,
                trained_params = None, stdout = []\<rparr> = Inr nb'
         \<and> TRAINING_DATA nb' ! 3 ! 2 = [0, 0, 1, 0, 1, 1, 1, 1]
         \<and> LABELS nb' ! 3 ! 2 = [0, 1]
         \<and> TRAINING_DATA nb' ! 2 ! 0 = [0, 0, 0, 0, 1, 1, 1, 0]
         \<and> LABELS nb' ! 2 ! 0 = [1, 0])"
proof -
  let ?raw = "map (\<lambda>s. map (\<lambda>b. [int ((7 * s + 13 * b) mod 255)]) [0..<5]) [0..<1000]"
  let ?nb = "\<lparr>RAW_TRAINING_DATA = [], TRAINING_DATA = [], LABELS = [], initial_params = Map.empty,
                trained_params = None, stdout = []\<rparr>"
  have h: "randint_output 255 (NUM_TRAIN_STEPS, BATCH_SIZE, 1) ?raw"
    by (auto simp: randint_output_def NUM_TRAIN_STEPS_def BATCH_SIZE_def)
  have odd_draw: "?raw ! 3 ! 2 ! 0 = 47" and even_draw: "?raw ! 2 ! 0 ! 0 = 14" by simp_all
  from training_example_bits_and_parity_label [OF h, of ?nb]
  obtain nb' where L: "cell_1 ?raw ?nb = Inr nb'"
    and all: "\<forall>s<NUM_TRAIN_STEPS.
            length (TRAINING_DATA nb' ! s) = BATCH_SIZE \<and> length (LABELS nb' ! s) = BATCH_SIZE
          \<and> (\<forall>b<BATCH_SIZE.
               (let r = ?raw ! s ! b ! 0; x = TRAINING_DATA nb' ! s ! b; y = LABELS nb' ! s ! b
                in 0 \<le> r \<and> r < 255
                 \<and> x = map (\<lambda>k. word_of_int (r div 2 ^ (7 - k) mod 2)) [0..<8]
                 \<and> (\<Sum>k<8. uint (x ! k) * 2 ^ (7 - k)) = r
                 \<and> y = (if r mod 2 = 0 then [1, 0] else [0, 1])
                 \<and> uint (last x) = r mod 2
                 \<and> length y = 2
                 \<and> y ! nat (uint (last x)) = 1
                 \<and> y ! (1 - nat (uint (last x))) = 0))"
    by blast
  have idx: "3 < NUM_TRAIN_STEPS" "2 < NUM_TRAIN_STEPS" "2 < BATCH_SIZE" "0 < BATCH_SIZE"
    by (simp_all add: NUM_TRAIN_STEPS_def BATCH_SIZE_def)
  note ex = all [unfolded Let_def]
  from ex idx(1) idx(3)
  have x1: "TRAINING_DATA nb' ! 3 ! 2
              = map (\<lambda>k. word_of_int (?raw ! 3 ! 2 ! 0 div 2 ^ (7 - k) mod 2)) [0..<8]"
    and y1: "LABELS nb' ! 3 ! 2 = (if ?raw ! 3 ! 2 ! 0 mod 2 = 0 then [1, 0] else [0, 1])"
    by blast+
  from ex idx(2) idx(4)
  have x2: "TRAINING_DATA nb' ! 2 ! 0
              = map (\<lambda>k. word_of_int (?raw ! 2 ! 0 ! 0 div 2 ^ (7 - k) mod 2)) [0..<8]"
    and y2: "LABELS nb' ! 2 ! 0 = (if ?raw ! 2 ! 0 ! 0 mod 2 = 0 then [1, 0] else [0, 1])"
    by blast+
  have "TRAINING_DATA nb' ! 3 ! 2 = [0, 0, 1, 0, 1, 1, 1, 1]"
    unfolding x1 odd_draw upt8 by simp
  moreover have "LABELS nb' ! 3 ! 2 = [0, 1]"
    unfolding y1 odd_draw by simp
  moreover have "TRAINING_DATA nb' ! 2 ! 0 = [0, 0, 0, 0, 1, 1, 1, 0]"
    unfolding x2 even_draw upt8 by simp
  moreover have "LABELS nb' ! 2 ! 0 = [1, 0]"
    unfolding y2 even_draw by simp
  ultimately show ?thesis using h L by blast
qed

section \<open>Properties of the network and the loss\<close>

lemma sum_list_upt: "(\<Sum>k\<leftarrow>[0..<n]. t k) = (\<Sum>k<n. t k)"
  by (simp add: interv_sum_list_conv_sum_set_nat atLeast0LessThan)

lemma ncols_has_shape: "has_shape r c m \<Longrightarrow> 0 < r \<Longrightarrow> ncols m = c"
  by (cases m) (auto simp: has_shape_def ncols_def)

lemma dot_shape:
  assumes a: "has_shape n d a" and b: "has_shape d e b" and d: "0 < d"
  shows "dot a b = Inr (map (\<lambda>row. map (\<lambda>j. \<Sum>k<d. row ! k * b ! k ! j) [0..<e]) a)"
proof -
  have "\<forall>row \<in> set a. length row = length b"
    using a b by (simp add: has_shape_def)
  moreover have "ncols b = e" using b d by (rule ncols_has_shape)
  moreover have "length b = d" using b by (simp add: has_shape_def)
  ultimately show ?thesis
    by (simp add: dot_def sum_list_upt)
qed


lemma has_shape_nth: "has_shape r c m \<Longrightarrow> i < r \<Longrightarrow> length (m ! i) = c"
  by (simp add: has_shape_def)

lemma has_shape_relu: "has_shape r c m \<Longrightarrow> has_shape r c (relu m)"
  by (auto simp: has_shape_def relu_def)

lemma relu_nth:
  "has_shape r c m \<Longrightarrow> i < r \<Longrightarrow> j < c \<Longrightarrow> relu m ! i ! j = max (m ! i ! j) 0"
  by (simp add: has_shape_def relu_def)

lemma dot_has_shape:
  assumes "has_shape n d a"
  shows "has_shape n e (map (\<lambda>row. map (\<lambda>j. \<Sum>k<d. row ! k * b ! k ! j) [0..<e]) a)"
  using assms by (simp add: has_shape_def)

lemma net_formula:
  assumes x: "has_shape n d x"
    and hid: "params ''hidden'' = Some hidden" and hs: "has_shape d h hidden"
    and out: "params ''output'' = Some output" and os: "has_shape h c output"
    and d: "0 < d" and h: "0 < h"
  shows "\<exists>y. net x params = Inr y \<and> has_shape n c y
           \<and> (\<forall>i<n. \<forall>k<c. y ! i ! k
                 = (\<Sum>j<h. max (\<Sum>m<d. x ! i ! m * hidden ! m ! j) 0 * output ! j ! k))"
proof -
  let ?x1 = "map (\<lambda>row. map (\<lambda>j. \<Sum>k<d. row ! k * hidden ! k ! j) [0..<h]) x"
  let ?y = "map (\<lambda>row. map (\<lambda>j. \<Sum>k<h. row ! k * output ! k ! j) [0..<c]) (relu ?x1)"
  have n: "length x = n" using x by (simp add: has_shape_def)
  have d1: "dot x hidden = Inr ?x1" using x hs d by (rule dot_shape)
  have s1: "has_shape n h ?x1" using x by (rule dot_has_shape)
  then have s2: "has_shape n h (relu ?x1)" by (rule has_shape_relu)
  then have d2: "dot (relu ?x1) output = Inr ?y" using os h by (rule dot_shape)
  have net: "net x params = Inr ?y"
    by (simp add: net_def bind_err_def getitem_def hid out d1 d2)
  have sy: "has_shape n c ?y" using s2 by (rule dot_has_shape)
  have el: "?y ! i ! k = (\<Sum>j<h. max (\<Sum>m<d. x ! i ! m * hidden ! m ! j) 0 * output ! j ! k)"
    if i: "i < n" and k: "k < c" for i k
  proof -
    have len: "length (relu ?x1) = n" using s2 by (simp add: has_shape_def)
    have "?y ! i ! k = (\<Sum>j<h. relu ?x1 ! i ! j * output ! j ! k)"
      using i k len by simp
    also have "\<dots> = (\<Sum>j<h. max (?x1 ! i ! j) 0 * output ! j ! k)"
      by (rule sum.cong) (simp_all add: relu_nth [OF s1 i])
    also have "\<dots> = (\<Sum>j<h. max (\<Sum>m<d. x ! i ! m * hidden ! m ! j) 0 * output ! j ! k)"
      by (rule sum.cong) (use i n in simp_all)
    finally show ?thesis .
  qed
  from net sy el show ?thesis by blast
qed


lemma elementwise_same_shape:
  assumes a: "has_shape n c a" and b: "has_shape n c b" and n: "0 < n"
  shows "elementwise op a b = Inr (map (\<lambda>i. map (\<lambda>j. op (a ! i ! j) (b ! i ! j)) [0..<c]) [0..<n])"
proof -
  have la: "length a = n" and lb: "length b = n"
    using a b by (simp_all add: has_shape_def)
  have ca: "ncols a = c" and cb: "ncols b = c"
    using a b n by (simp_all add: ncols_has_shape)
  have row: "map (\<lambda>j. op (a ! (if n = 1 then 0 else i) ! (if c = 1 then 0 else j))
                        (b ! (if n = 1 then 0 else i) ! (if c = 1 then 0 else j))) [0..<c]
             = map (\<lambda>j. op (a ! i ! j) (b ! i ! j)) [0..<c]" if "i < n" for i
    using that by (intro map_cong refl) auto
  have "elementwise op a b
        = Inr (map (\<lambda>i. map (\<lambda>j. op (a ! (if n = 1 then 0 else i) ! (if c = 1 then 0 else j))
                        (b ! (if n = 1 then 0 else i) ! (if c = 1 then 0 else j))) [0..<c]) [0..<n])"
    by (simp add: elementwise_def broadcast_dim_def la lb ca cb)
  also have "\<dots> = Inr (map (\<lambda>i. map (\<lambda>j. op (a ! i ! j) (b ! i ! j)) [0..<c]) [0..<n])"
    using row by (simp del: upt_Suc)
  finally show ?thesis .
qed

lemma mean_sum_rows:
  "mean (sum_last_axis (map (\<lambda>i. map (t i) [0..<c]) [0..<n])) = (\<Sum>i<n. \<Sum>j<c. t i j) / real n"
proof -
  have "sum_last_axis (map (\<lambda>i. map (t i) [0..<c]) [0..<n]) = map (\<lambda>i. \<Sum>j<c. t i j) [0..<n]"
    by (simp add: sum_last_axis_def sum_list_upt comp_def del: upt_Suc)
  then show ?thesis
    by (simp add: mean_def sum_list_upt del: upt_Suc)
qed

lemma loss_formula:
  assumes x: "has_shape n d batch" and l: "has_shape n c labels"
    and hid: "params ''hidden'' = Some hidden" and hs: "has_shape d h hidden"
    and out: "params ''output'' = Some output" and os: "has_shape h c output"
    and d: "0 < d" and h: "0 < h" and n: "0 < n"
  shows "\<exists>y. net batch params = Inr y
           \<and> loss xent params batch labels
               = Inr ((\<Sum>i<n. \<Sum>k<c. xent (y ! i ! k) (labels ! i ! k)) / real n)"
proof -
  from net_formula [OF x hid hs out os d h]
  obtain y where y: "net batch params = Inr y" and sy: "has_shape n c y"
    by blast
  have "sigmoid_binary_cross_entropy xent y labels
        = Inr (map (\<lambda>i. map (\<lambda>k. xent (y ! i ! k) (labels ! i ! k)) [0..<c]) [0..<n])"
    unfolding sigmoid_binary_cross_entropy_def using sy l n by (rule elementwise_same_shape)
  then have "loss xent params batch labels
        = Inr (mean (sum_last_axis (map (\<lambda>i. map (\<lambda>k. xent (y ! i ! k) (labels ! i ! k)) [0..<c]) [0..<n])))"
    by (simp add: loss_def bind_err_def y)
  then show ?thesis using y by (simp only: mean_sum_rows) blast
qed


text \<open>
  Claim C5. With both weight matrices present, \<open>net x params\<close> is the matrix product of
  \<open>relu (x \<cdot> hidden)\<close> with \<open>output\<close>; for arrays whose shapes fit, it returns the array
  whose entry \<open>(i, k)\<close> is the sum over the hidden units \<open>j\<close> of
  \<open>max (\<Sum>m. x i m * hidden m j) 0 * output j k\<close>: two linear layers without bias terms,
  the ReLU after the hidden layer only.
\<close>

theorem net_is_two_layer_relu_network:
  assumes x: "has_shape n d x"
    and hid: "params ''hidden'' = Some hidden" and hs: "has_shape d h hidden"
    and out: "params ''output'' = Some output" and os: "has_shape h c output"
    and d: "0 < d" and h: "0 < h"
  shows "net x params = bind_err (dot x hidden) (\<lambda>a. dot (relu a) output)
       \<and> (\<exists>y. net x params = Inr y \<and> has_shape n c y
             \<and> (\<forall>i<n. \<forall>k<c. y ! i ! k
                   = (\<Sum>j<h. max (\<Sum>m<d. x ! i ! m * hidden ! m ! j) 0 * output ! j ! k)))"
proof
  show "net x params = bind_err (dot x hidden) (\<lambda>a. dot (relu a) output)"
    by (simp add: net_def bind_err_def getitem_def hid out)
  show "\<exists>y. net x params = Inr y \<and> has_shape n c y
             \<and> (\<forall>i<n. \<forall>k<c. y ! i ! k
                   = (\<Sum>j<h. max (\<Sum>m<d. x ! i ! m * hidden ! m ! j) 0 * output ! j ! k))"
    using x hid hs out os d h by (rule net_formula)
qed

lemma lessThan_2: "{..<2::nat} = {0, 1}"
  by auto

lemma lessThan_3: "{..<3::nat} = {0, 1, 2}"
  by auto

theorem net_is_two_layer_relu_network_witness:
  "has_shape 2 2 [[1, 0], [0, 1::real]]
   \<and> has_shape 2 3 [[1, -1, 2], [0, 3, 1::real]]
   \<and> has_shape 3 2 [[1, 0], [2, 1], [0, -1::real]]
   \<and> (\<exists>y. net [[1, 0], [0, 1]]
              [''hidden'' \<mapsto> [[1, -1, 2], [0, 3, 1]], ''output'' \<mapsto> [[1, 0], [2, 1], [0, -1]]] = Inr y
         \<and> has_shape 2 2 y \<and> y ! 0 ! 0 = 1 \<and> y ! 0 ! 1 = -2 \<and> y ! 1 ! 0 = 6 \<and> y ! 1 ! 1 = 2)"
proof -
  let ?x = "[[1, 0], [0, 1::real]]"
  let ?h = "[[1, -1, 2], [0, 3, 1::real]]"
  let ?o = "[[1, 0], [2, 1], [0, -1::real]]"
  let ?p = "[''hidden'' \<mapsto> ?h, ''output'' \<mapsto> ?o]"
  have x: "has_shape 2 2 ?x" and hs: "has_shape 2 3 ?h" and os: "has_shape 3 2 ?o"
    by (simp_all add: has_shape_def)
  have hid: "?p ''hidden'' = Some ?h" and out: "?p ''output'' = Some ?o"
    by simp_all
  have p2: "0 < (2::nat)" and p3: "0 < (3::nat)" by simp_all
  from net_is_two_layer_relu_network [OF x hid hs out os p2 p3]
  obtain y where y: "net ?x ?p = Inr y" and sy: "has_shape 2 2 y"
    and el: "\<forall>i<2. \<forall>k<2. y ! i ! k = (\<Sum>j<3. max (\<Sum>m<2. ?x ! i ! m * ?h ! m ! j) 0 * ?o ! j ! k)"
    by blast
  have "y ! 0 ! 0 = 1" "y ! 0 ! 1 = -2" "y ! 1 ! 0 = 6" "y ! 1 ! 1 = 2"
    using el by (simp_all add: lessThan_2 lessThan_3)
  with x hs os y sy show ?thesis by blast
qed

text \<open>
  Claim C4. For a non-empty batch, labels of the shape of the network's output and
  weight matrices whose shapes fit, \<open>loss\<close> returns the mean over the batch elements of
  the sum over the output components of the element-wise cross-entropy between
  \<open>net batch params\<close> and the labels.
\<close>

theorem loss_is_mean_of_summed_cross_entropy:
  assumes x: "has_shape n d batch" and l: "has_shape n c labels"
    and hid: "params ''hidden'' = Some hidden" and hs: "has_shape d h hidden"
    and out: "params ''output'' = Some output" and os: "has_shape h c output"
    and d: "0 < d" and h: "0 < h" and n: "0 < n"
  shows "\<exists>y. net batch params = Inr y \<and> has_shape n c y
           \<and> loss xent params batch labels
               = Inr ((\<Sum>i<n. \<Sum>k<c. xent (y ! i ! k) (labels ! i ! k)) / real n)"
proof -
  from loss_formula [OF x l hid hs out os d h n, of xent]
  obtain y where y: "net batch params = Inr y"
    and v: "loss xent params batch labels
               = Inr ((\<Sum>i<n. \<Sum>k<c. xent (y ! i ! k) (labels ! i ! k)) / real n)"
    by blast
  from net_formula [OF x hid hs out os d h] y have "has_shape n c y"
    by auto
  with y v show ?thesis by blast
qed

theorem loss_is_mean_of_summed_cross_entropy_witness:
  "has_shape 2 2 [[1, 0], [0, 1::real]]
   \<and> has_shape 2 3 [[1, -1, 2], [0, 3, 1::real]]
   \<and> has_shape 3 2 [[1, 0], [2, 1], [0, -1::real]]
   \<and> loss (\<lambda>logit label. logit * label - 1)
        [''hidden'' \<mapsto> [[1, -1, 2], [0, 3, 1]], ''output'' \<mapsto> [[1, 0], [2, 1], [0, -1]]]
        [[1, 0], [0, 1]] [[1, 0], [0, 1]] = Inr (- 1 / 2)"
proof -
  let ?x = "[[1, 0], [0, 1::real]]"
  let ?h = "[[1, -1, 2], [0, 3, 1::real]]"
  let ?o = "[[1, 0], [2, 1], [0, -1::real]]"
  let ?p = "[''hidden'' \<mapsto> ?h, ''output'' \<mapsto> ?o]"
  let ?f = "\<lambda>logit label :: real. logit * label - 1"
  have x: "has_shape 2 2 ?x" and hs: "has_shape 2 3 ?h" and os: "has_shape 3 2 ?o"
    by (simp_all add: has_shape_def)
  have hid: "?p ''hidden'' = Some ?h" and out: "?p ''output'' = Some ?o"
    by simp_all
  have net: "net ?x ?p = Inr [[1, -2], [6, 2]]"
    by (simp add: net_def bind_err_def getitem_def dot_def ncols_def relu_def upt_conv_Cons)
  have p2: "0 < (2::nat)" and p3: "0 < (3::nat)" by simp_all
  from loss_is_mean_of_summed_cross_entropy [OF x x hid hs out os p2 p3 p2, of ?f]
  obtain y where y: "net ?x ?p = Inr y"
    and v: "loss ?f ?p ?x ?x = Inr ((\<Sum>i<2. \<Sum>k<2. ?f (y ! i ! k) (?x ! i ! k)) / real 2)"
    by blast
  from y net have "y = [[1, -2], [6, 2]]" by simp
  with v have "loss ?f ?p ?x ?x = Inr (- 1 / 2)"
    by (simp add: lessThan_2)
  with x hs os show ?thesis by blast
qed

section \<open>Properties of the training loop\<close>

text \<open>
  The data the first cell builds from a draw have the shape the training loop expects,
  and the cell touches neither the parameters nor the output.
\<close>

lemma length_unpack_byte: "length (unpack_byte w) = 8"
  by (simp add: unpack_byte_def)

lemma cell_1_data_ok:
  assumes raw: "randint_output 255 (NUM_TRAIN_STEPS, BATCH_SIZE, 1) raw"
  shows "\<exists>nb'. cell_1 raw nb = Inr nb' \<and> data_ok nb'
           \<and> initial_params nb' = initial_params nb \<and> stdout nb' = stdout nb"
proof -
  let ?N = NUM_TRAIN_STEPS and ?B = BATCH_SIZE
  let ?a = "map (map (map (\<lambda>r. one_hot (r mod 2) 2))) raw"
  let ?flat = "ravel ?a"
  let ?data = "map (map (\<lambda>row. unpackbits (map astype_uint8 row))) raw"
  let ?labels = "map (\<lambda>i. map (\<lambda>j. map (\<lambda>k. ?flat ! ((i * ?B + j) * 2 + k)) [0..<2]) [0..<?B]) [0..<?N]"
  from raw have n: "length raw = ?N"
    and b: "\<forall>batch \<in> set raw. length batch = ?B"
    and c: "\<forall>batch \<in> set raw. \<forall>row \<in> set batch. length row = 1"
    by (auto simp: randint_output_def)
  have an: "length ?a = ?N" using n by simp
  have ab: "\<forall>x \<in> set ?a. length x = ?B" using b by auto
  have ac: "\<forall>x \<in> set ?a. \<forall>y \<in> set x. length y = 1" using c by auto
  have ad: "\<forall>x \<in> set ?a. \<forall>y \<in> set x. \<forall>z \<in> set y. length z = 2"
    by (auto simp: one_hot_def)
  have "length ?flat = ?N * ?B * 1 * 2"
    using an ab ac ad by (rule length_ravel)
  then have L: "cell_1 raw nb
      = Inr (nb\<lparr>RAW_TRAINING_DATA := raw, TRAINING_DATA := ?data, LABELS := ?labels\<rparr>)"
    by (simp add: cell_1_def reshape_def bind_err_def)
  have row8: "length (unpackbits (map astype_uint8 row)) = 8" if "length row = 1" for row
  proof -
    from that obtain r where "row = [r]" by (cases row) simp_all
    then show ?thesis by (simp add: unpackbits_def length_unpack_byte)
  qed
  have d: "\<forall>batch \<in> set ?data. has_shape ?B 8 batch"
    using b c by (auto simp: has_shape_def row8)
  have l: "\<forall>labels \<in> set ?labels. has_shape ?B 2 labels"
    by (auto simp: has_shape_def)
  have "data_ok (nb\<lparr>RAW_TRAINING_DATA := raw, TRAINING_DATA := ?data, LABELS := ?labels\<rparr>)"
    unfolding data_ok_def using n d l by simp
  with L show ?thesis by simp
qed

lemma elementwise_has_shape:
  assumes a: "has_shape n c a" and b: "has_shape n c b" and n: "0 < n"
  shows "\<exists>m. elementwise op a b = Inr m \<and> has_shape n c m"
  unfolding elementwise_same_shape [OF a b n] by (simp add: has_shape_def)

lemma params_okE:
  assumes "params_ok p"
  obtains hid outp where "dom p = {''hidden'', ''output''}"
    and "p ''hidden'' = Some hid" and "has_shape 8 32 hid"
    and "p ''output'' = Some outp" and "has_shape 32 2 outp"
  using assms unfolding params_ok_def by (elim conjE exE) (rule that)

lemma params_okI:
  assumes "dom p = {''hidden'', ''output''}"
    and "p ''hidden'' = Some hidden" and "has_shape 8 32 hidden"
    and "p ''output'' = Some output" and "has_shape 32 2 output"
  shows "params_ok p"
  unfolding params_ok_def using assms by (intro conjI exI)

lemma apply_updates_ok:
  assumes p: "params_ok p" and u: "params_ok u"
  shows "\<exists>p'. apply_updates p u = Inr p' \<and> params_ok p'"
proof -
  from p obtain ph po where dp: "dom p = {''hidden'', ''output''}"
    and ph: "p ''hidden'' = Some ph" and phs: "has_shape 8 32 ph"
    and po: "p ''output'' = Some po" and pos: "has_shape 32 2 po"
    by (rule params_okE)
  from u obtain uh uo where du: "dom u = {''hidden'', ''output''}"
    and uh: "u ''hidden'' = Some uh" and uhs: "has_shape 8 32 uh"
    and uo: "u ''output'' = Some uo" and uos: "has_shape 32 2 uo"
    by (rule params_okE)
  have p8: "0 < (8::nat)" and p32: "0 < (32::nat)" by simp_all
  from elementwise_has_shape [OF phs uhs p8, of "(+)"]
  obtain mh where mh: "elementwise (+) ph uh = Inr mh" and mhs: "has_shape 8 32 mh" by blast
  from elementwise_has_shape [OF pos uos p32, of "(+)"]
  obtain mo where mo: "elementwise (+) po uo = Inr mo" and mos: "has_shape 32 2 mo" by blast
  define p' where "p' = (\<lambda>k. case p k of
                      None \<Rightarrow> None
                    | Some a \<Rightarrow> (case elementwise (+) a (the (u k)) of
                                  Inl e \<Rightarrow> None
                                | Inr m \<Rightarrow> Some m))"
  have eh: "elementwise (+) (the (p ''hidden'')) (the (u ''hidden'')) = Inr mh"
    by (simp only: ph uh option.sel mh)
  have eo: "elementwise (+) (the (p ''output'')) (the (u ''output'')) = Inr mo"
    by (simp only: po uo option.sel mo)
  have noerr: "\<not> (\<exists>k \<in> dom p. \<exists>e. elementwise (+) (the (p k)) (the (u k)) = Inl e)"
  proof
    assume "\<exists>k \<in> dom p. \<exists>e. elementwise (+) (the (p k)) (the (u k)) = Inl e"
    then obtain k e where k: "k \<in> dom p"
      and e: "elementwise (+) (the (p k)) (the (u k)) = Inl e" by blast
    from k dp have "k = ''hidden'' \<or> k = ''output''" by simp
    then show False
    proof
      assume "k = ''hidden''"
      with e eh show False by simp
    next
      assume "k = ''output''"
      with e eo show False by simp
    qed
  qed
  have same: "\<not> dom p \<noteq> dom u" using dp du by simp
  have res: "apply_updates p u = Inr p'"
    unfolding apply_updates_def p'_def if_not_P [OF same] if_not_P [OF noerr] ..
  have h: "p' ''hidden'' = Some mh"
    unfolding p'_def by (simp only: ph uh option.sel option.case mh sum.case)
  have o: "p' ''output'' = Some mo"
    unfolding p'_def by (simp only: po uo option.sel option.case mo sum.case)
  have "dom p' \<subseteq> dom p"
  proof
    fix k assume "k \<in> dom p'"
    then obtain m where "p' k = Some m" by blast
    then have "p k \<noteq> None" unfolding p'_def by (cases "p k") simp_all
    then show "k \<in> dom p" by blast
  qed
  moreover have "''hidden'' \<in> dom p'" "''output'' \<in> dom p'"
    using h o by (simp_all add: dom_def)
  ultimately have "dom p' = {''hidden'', ''output''}" using dp by auto
  then have "params_ok p'" using h mhs o mos by (rule params_okI)
  with res show ?thesis by (intro exI conjI)
qed

lemma has_shape_as_float: "has_shape n c batch \<Longrightarrow> has_shape n c (as_float batch)"
  by (auto simp: has_shape_def as_float_def)

lemma loss_defined:
  assumes p: "params_ok p" and x: "has_shape n 8 x" and l: "has_shape n 2 labels" and n: "0 < n"
  shows "\<exists>v. loss xent p x labels = Inr v"
proof -
  from p obtain ph po where ph: "p ''hidden'' = Some ph" and phs: "has_shape 8 32 ph"
    and po: "p ''output'' = Some po" and pos: "has_shape 32 2 po"
    by (rule params_okE)
  have p8: "0 < (8::nat)" and p32: "0 < (32::nat)" by simp_all
  from loss_formula [OF x l ph phs po pos p8 p32 n, of xent] show ?thesis by blast
qed

lemma step_ok:
  assumes g: "grad_keeps_shapes grad" and o: "optimizer_keeps_shapes optimizer"
    and p: "params_ok p" and x: "has_shape n 8 batch" and l: "has_shape n 2 labels" and n: "0 < n"
  shows "\<exists>p' s' v. step grad xent optimizer p s batch labels = Inr (p', s', v)
           \<and> params_ok p' \<and> loss xent p (as_float batch) labels = Inr v"
proof -
  from loss_defined [OF p has_shape_as_float [OF x] l n]
  obtain v where v: "loss xent p (as_float batch) labels = Inr v" by blast
  let ?g = "grad (loss xent) p (as_float batch) labels"
  have pg: "params_ok ?g" using g p by (simp add: grad_keeps_shapes_def)
  obtain upd s' where us: "update optimizer ?g s p = (upd, s')"
    by (cases "update optimizer ?g s p")
  have "params_ok (fst (update optimizer ?g s p))"
    using o pg p by (simp add: optimizer_keeps_shapes_def)
  then have pu: "params_ok upd" using us by simp
  from apply_updates_ok [OF p pu]
  obtain p' where p': "apply_updates p upd = Inr p'" "params_ok p'" by blast
  have "step grad xent optimizer p s batch labels = Inr (p', s', v)"
    by (simp add: step_def value_and_grad_def bind_err_def v us p')
  with p' v show ?thesis by blast
qed



lemma filter_multiples:
  assumes m: "0 < m"
  shows "filter (\<lambda>k. k mod m = 0) [0..<m * n] = map (\<lambda>j. m * j) [0..<n]"
proof (induction n)
  case 0
  show ?case by simp
next
  case (Suc n)
  have split: "[0..<m * Suc n] = [0..<m * n] @ [m * n..<m * n + m]"
    using upt_add_eq_append [of 0 "m * n" m] by (simp add: add.commute)
  have hd: "[m * n..<m * n + m] = (m * n) # [Suc (m * n)..<m * n + m]"
    by (rule upt_conv_Cons) (use m in simp)
  have none: "filter (\<lambda>k. k mod m = 0) [Suc (m * n)..<m * n + m] = []"
  proof -
    have "k mod m \<noteq> 0" if "Suc (m * n) \<le> k" "k < m * n + m" for k
    proof -
      define r where "r = k - m * n"
      have k: "k = m * n + r" and r: "0 < r" "r < m"
        using that by (simp_all add: r_def)
      have "k mod m = r mod m" unfolding k by simp
      with r show ?thesis by simp
    qed
    then show ?thesis by (simp add: filter_empty_conv)
  qed
  show ?case
    unfolding split filter_append hd
    by (simp only: Suc.IH none filter.simps mod_mult_self1_is_0 if_True refl simp_thms upt_Suc_append [OF le0] map_append list.map)
qed

lemma multiples_of_100:
  "filter (\<lambda>k. k mod 100 = 0) [0..<NUM_TRAIN_STEPS] = map (\<lambda>j. 100 * j) [0..<10]"
proof -
  have e: "(100::nat) * 10 = NUM_TRAIN_STEPS" by (simp add: NUM_TRAIN_STEPS_def)
  have p: "0 < (100::nat)" by simp
  show ?thesis using filter_multiples [OF p, of 10] unfolding e .
qed

lemma filter_upt_Suc_shift:
  "filter P [0..<Suc n] = (if P 0 then [0] else []) @ map Suc (filter (\<lambda>k. P (Suc k)) [0..<n])"
proof -
  have "[0..<Suc n] = 0 # map Suc [0..<n]"
    by (simp only: upt_conv_Cons [of 0 "Suc n"] map_Suc_upt zero_less_Suc)
  then show ?thesis by (simp add: filter_map comp_def)
qed

lemma fit_loop_trace:
  assumes stp: "\<And>p s b l. (b, l) \<in> set pairs \<Longrightarrow> I p
                  \<Longrightarrow> \<exists>p' s' v. stp p s b l = Inr (p', s', v) \<and> I p'"
    and inv: "I p"
  shows "\<exists>ps ss lv. ps 0 = p \<and> ss 0 = s
      \<and> (\<forall>k<length pairs. stp (ps k) (ss k) (fst (pairs ! k)) (snd (pairs ! k))
                              = Inr (ps (Suc k), ss (Suc k), lv k))
      \<and> (\<forall>k\<le>length pairs. I (ps k))
      \<and> fit_loop stp i pairs p s out
          = (Inr (ps (length pairs)),
             out @ map (\<lambda>k. (i + k, lv k)) (filter (\<lambda>k. (i + k) mod 100 = 0) [0..<length pairs]))"
  using assms
proof (induction pairs arbitrary: p s i out)
  case Nil
  show ?case
    by (rule exI [of _ "\<lambda>_. p"], rule exI [of _ "\<lambda>_. s"], rule exI [of _ "\<lambda>_. 0"])
       (simp add: Nil.prems)
next
  case (Cons bl rest)
  obtain b l where bl: "bl = (b, l)" by (cases bl)
  from Cons.prems(1) [of b l p s] Cons.prems(2) bl
  obtain p' s' v where st: "stp p s b l = Inr (p', s', v)" and inv': "I p'"
    by auto
  let ?out' = "if i mod 100 = 0 then out @ [(i, v)] else out"
  have "\<exists>ps ss lv. ps 0 = p' \<and> ss 0 = s'
      \<and> (\<forall>k<length rest. stp (ps k) (ss k) (fst (rest ! k)) (snd (rest ! k))
                              = Inr (ps (Suc k), ss (Suc k), lv k))
      \<and> (\<forall>k\<le>length rest. I (ps k))
      \<and> fit_loop stp (i + 1) rest p' s' ?out'
          = (Inr (ps (length rest)),
             ?out' @ map (\<lambda>k. (i + 1 + k, lv k)) (filter (\<lambda>k. (i + 1 + k) mod 100 = 0) [0..<length rest]))"
  proof (rule Cons.IH)
    show "\<exists>p' s' v. stp p s b l = Inr (p', s', v) \<and> I p'"
      if "(b, l) \<in> set rest" "I p" for p s b l
      using that Cons.prems(1) [of b l p s] by simp
    show "I p'" by (rule inv')
  qed
  then obtain ps ss lv where ps0: "ps 0 = p'" and ss0: "ss 0 = s'"
    and steps: "\<forall>k<length rest. stp (ps k) (ss k) (fst (rest ! k)) (snd (rest ! k))
                              = Inr (ps (Suc k), ss (Suc k), lv k)"
    and invs: "\<forall>k\<le>length rest. I (ps k)"
    and res: "fit_loop stp (i + 1) rest p' s' ?out'
          = (Inr (ps (length rest)),
             ?out' @ map (\<lambda>k. (i + 1 + k, lv k)) (filter (\<lambda>k. (i + 1 + k) mod 100 = 0) [0..<length rest]))"
    by blast
  let ?ps = "case_nat p ps" and ?ss = "case_nat s ss" and ?lv = "case_nat v lv"
  have steps': "stp (?ps k) (?ss k) (fst ((bl # rest) ! k)) (snd ((bl # rest) ! k))
                  = Inr (?ps (Suc k), ?ss (Suc k), ?lv k)" if "k < length (bl # rest)" for k
  proof (cases k)
    case 0
    then show ?thesis by (simp add: bl st ps0 ss0)
  next
    case (Suc j)
    with that steps show ?thesis by simp
  qed
  have invs': "I (?ps k)" if "k \<le> length (bl # rest)" for k
  proof (cases k)
    case 0
    then show ?thesis by (simp add: Cons.prems(2))
  next
    case (Suc j)
    with that invs show ?thesis by simp
  qed
  have outs: "?out' @ map (\<lambda>k. (i + 1 + k, lv k)) (filter (\<lambda>k. (i + 1 + k) mod 100 = 0) [0..<length rest])
      = out @ map (\<lambda>k. (i + k, ?lv k)) (filter (\<lambda>k. (i + k) mod 100 = 0) [0..<length (bl # rest)])"
    by (simp add: filter_upt_Suc_shift comp_def del: upt_Suc)
  have "fit_loop stp i (bl # rest) p s out
      = (Inr (?ps (length (bl # rest))),
         out @ map (\<lambda>k. (i + k, ?lv k)) (filter (\<lambda>k. (i + k) mod 100 = 0) [0..<length (bl # rest)]))"
    unfolding outs [symmetric] using res by (simp add: bl st)
  with steps' invs' show ?case
    by (intro exI [of _ ?ps] exI [of _ ?ss] exI [of _ ?lv]) simp
qed



lemma fit_trace:
  assumes g: "grad_keeps_shapes grad" and o: "optimizer_keeps_shapes optimizer"
    and p: "params_ok params" and d: "data_ok nb"
  shows "\<exists>ps ss lv. ps 0 = params \<and> ss 0 = init optimizer params
      \<and> (\<forall>k<NUM_TRAIN_STEPS.
            step grad xent optimizer (ps k) (ss k) (TRAINING_DATA nb ! k) (LABELS nb ! k)
              = Inr (ps (Suc k), ss (Suc k), lv k))
      \<and> (\<forall>k\<le>NUM_TRAIN_STEPS. params_ok (ps k))
      \<and> fit grad xent params optimizer nb
          = (Inr (ps NUM_TRAIN_STEPS),
             nb\<lparr>stdout := stdout nb @ map (\<lambda>j. (100 * j, lv (100 * j))) [0..<10]\<rparr>)"
proof -
  let ?pairs = "zip (TRAINING_DATA nb) (LABELS nb)"
  let ?stp = "step grad xent optimizer"
  from d have lt: "length (TRAINING_DATA nb) = NUM_TRAIN_STEPS"
    and ll: "length (LABELS nb) = NUM_TRAIN_STEPS"
    and st: "\<forall>batch \<in> set (TRAINING_DATA nb). has_shape BATCH_SIZE 8 batch"
    and sl: "\<forall>labels \<in> set (LABELS nb). has_shape BATCH_SIZE 2 labels"
    unfolding data_ok_def by simp_all
  have len: "length ?pairs = NUM_TRAIN_STEPS" using lt ll by simp
  have B: "0 < BATCH_SIZE" by (simp add: BATCH_SIZE_def)
  have stp: "\<exists>p' s' v. ?stp p s b l = Inr (p', s', v) \<and> params_ok p'"
    if "(b, l) \<in> set ?pairs" "params_ok p" for p s b l
  proof -
    from that(1) have "b \<in> set (TRAINING_DATA nb)" "l \<in> set (LABELS nb)"
      by (auto dest: set_zip_leftD set_zip_rightD)
    with st sl have "has_shape BATCH_SIZE 8 b" "has_shape BATCH_SIZE 2 l" by simp_all
    from step_ok [OF g o that(2) this B, of xent s] show ?thesis by blast
  qed
  from fit_loop_trace [of ?pairs params_ok ?stp params "init optimizer params" 0 "stdout nb", OF stp p]
  obtain ps ss lv where ps0: "ps 0 = params" and ss0: "ss 0 = init optimizer params"
    and steps: "\<forall>k<length ?pairs. ?stp (ps k) (ss k) (fst (?pairs ! k)) (snd (?pairs ! k))
                              = Inr (ps (Suc k), ss (Suc k), lv k)"
    and invs: "\<forall>k\<le>length ?pairs. params_ok (ps k)"
    and res: "fit_loop ?stp 0 ?pairs params (init optimizer params) (stdout nb)
          = (Inr (ps (length ?pairs)),
             stdout nb @ map (\<lambda>k. (0 + k, lv k)) (filter (\<lambda>k. (0 + k) mod 100 = 0) [0..<length ?pairs]))"
    by blast
  have steps': "\<forall>k<NUM_TRAIN_STEPS.
            ?stp (ps k) (ss k) (TRAINING_DATA nb ! k) (LABELS nb ! k)
              = Inr (ps (Suc k), ss (Suc k), lv k)"
    using steps lt ll unfolding len by simp
  have lines: "map (\<lambda>k. (k, lv k)) (filter (\<lambda>k. k mod 100 = 0) [0..<NUM_TRAIN_STEPS])
               = map (\<lambda>j. (100 * j, lv (100 * j))) [0..<10]"
    unfolding multiples_of_100 map_map comp_def ..
  have "fit grad xent params optimizer nb
          = (Inr (ps NUM_TRAIN_STEPS),
             nb\<lparr>stdout := stdout nb @ map (\<lambda>j. (100 * j, lv (100 * j))) [0..<10]\<rparr>)"
    unfolding fit_def Let_def res len by (simp add: lines)
  with ps0 ss0 steps' invs [unfolded len] show ?thesis by blast
qed


subsection \<open>A concrete gradient, optimizer, parameters and data\<close>

text \<open>
  Simple instances of the framework's functions that keep the shapes: the gradient is the
  parameter record itself, the optimizer passes the gradients on as updates and counts
  the steps in its state, the generator fills an array with its seed.
\<close>

lemma example_grad_keeps_shapes: "grad_keeps_shapes (\<lambda>fn p b l. p)"
  by (simp add: grad_keeps_shapes_def)

lemma example_optimizer_keeps_shapes:
  "optimizer_keeps_shapes \<lparr>init = \<lambda>p. (0::nat), update = \<lambda>gr s p. (gr, Suc s)\<rparr>"
  by (simp add: optimizer_keeps_shapes_def)


lemma example_data_ok:
  "data_ok \<lparr>RAW_TRAINING_DATA = [], TRAINING_DATA = replicate 1000 (replicate 5 (replicate 8 1)),
            LABELS = replicate 1000 (replicate 5 [0, 1]), initial_params = ip,
            trained_params = None, stdout = []\<rparr>"
  by (simp add: data_ok_def NUM_TRAIN_STEPS_def BATCH_SIZE_def has_shape_def)

lemma example_normal_returns_shape:
  "normal_returns_shape (\<lambda>shape seed. replicate (fst shape) (replicate (snd shape) (real seed)))"
  by (simp add: normal_returns_shape_def has_shape_def)



text \<open>
  Claim C7. The parameter record the second cell builds holds exactly the keys \<open>hidden\<close>
  and \<open>output\<close> with an 8 by 32 and a 32 by 2 matrix; a training step on such a record
  returns such a record; and so has every one of the 1000 records a run of \<open>fit\<close> goes
  through, the returned one included. This rests on the framework's gradients and
  updates having the shapes of the parameters.
\<close>

theorem params_keys_and_shapes_invariant:
  fixes optimizer :: "'s gradient_transformation"
  assumes nrm: "normal_returns_shape normal"
    and g: "grad_keeps_shapes grad" and o: "optimizer_keeps_shapes optimizer"
  shows "params_ok (initial_params (cell_2 normal nb))
      \<and> (\<forall>p s batch labels.
            params_ok p \<and> has_shape BATCH_SIZE 8 batch \<and> has_shape BATCH_SIZE 2 labels
            \<longrightarrow> (\<exists>p' s' v. step grad xent optimizer p s batch labels = Inr (p', s', v)
                           \<and> params_ok p'))
      \<and> (\<forall>params. params_ok params \<and> data_ok nb
            \<longrightarrow> (\<exists>ps ss lv. ps 0 = params \<and> ss 0 = init optimizer params
                  \<and> (\<forall>k<NUM_TRAIN_STEPS.
                        step grad xent optimizer (ps k) (ss k) (TRAINING_DATA nb ! k) (LABELS nb ! k)
                          = Inr (ps (Suc k), ss (Suc k), lv k))
                  \<and> (\<forall>k\<le>NUM_TRAIN_STEPS. params_ok (ps k))
                  \<and> fst (fit grad xent params optimizer nb) = Inr (ps NUM_TRAIN_STEPS)))"
proof (intro conjI allI impI)
  have "has_shape 8 32 (normal (8, 32) 0)" "has_shape 32 2 (normal (32, 2) 1)"
    using nrm by (simp_all add: normal_returns_shape_def)
  then show "params_ok (initial_params (cell_2 normal nb))"
    by (intro params_okI [of _ "normal (8, 32) 0" "normal (32, 2) 1"])
       (auto simp: cell_2_def)
next
  fix p :: params and s :: 's and batch :: "8 word list list" and labels :: matrix
  assume a: "params_ok p \<and> has_shape BATCH_SIZE 8 batch \<and> has_shape BATCH_SIZE 2 labels"
  have B: "0 < BATCH_SIZE" by (simp add: BATCH_SIZE_def)
  from a have "params_ok p" "has_shape BATCH_SIZE 8 batch" "has_shape BATCH_SIZE 2 labels"
    by simp_all
  from step_ok [OF g o this B, of xent s]
  show "\<exists>p' s' v. step grad xent optimizer p s batch labels = Inr (p', s', v) \<and> params_ok p'"
    by blast
next
  fix params
  assume a: "params_ok params \<and> data_ok nb"
  then have p: "params_ok params" and d: "data_ok nb" by simp_all
  from fit_trace [OF g o p d, of xent]
  obtain ps ss lv where "ps 0 = params" "ss 0 = init optimizer params"
    "\<forall>k<NUM_TRAIN_STEPS.
            step grad xent optimizer (ps k) (ss k) (TRAINING_DATA nb ! k) (LABELS nb ! k)
              = Inr (ps (Suc k), ss (Suc k), lv k)"
    "\<forall>k\<le>NUM_TRAIN_STEPS. params_ok (ps k)"
    "fit grad xent params optimizer nb
          = (Inr (ps NUM_TRAIN_STEPS),
             nb\<lparr>stdout := stdout nb @ map (\<lambda>j. (100 * j, lv (100 * j))) [0..<10]\<rparr>)"
    by blast
  then show "\<exists>ps ss lv. ps 0 = params \<and> ss 0 = init optimizer params
                  \<and> (\<forall>k<NUM_TRAIN_STEPS.
                        step grad xent optimizer (ps k) (ss k) (TRAINING_DATA nb ! k) (LABELS nb ! k)
                          = Inr (ps (Suc k), ss (Suc k), lv k))
                  \<and> (\<forall>k\<le>NUM_TRAIN_STEPS. params_ok (ps k))
                  \<and> fst (fit grad xent params optimizer nb) = Inr (ps NUM_TRAIN_STEPS)"
    by (intro exI [of _ ps] exI [of _ ss] exI [of _ lv]) simp
qed

theorem params_keys_and_shapes_invariant_witness:
  "\<exists>p'. fst (fit (\<lambda>fn p b l. p) (\<lambda>logit label. logit - label)
      (initial_params
         (cell_2 (\<lambda>shape seed. replicate (fst shape) (replicate (snd shape) (real seed)))
            \<lparr>RAW_TRAINING_DATA = [], TRAINING_DATA = replicate 1000 (replicate 5 (replicate 8 1)),
             LABELS = replicate 1000 (replicate 5 [0, 1]), initial_params = Map.empty,
             trained_params = None, stdout = []\<rparr>))
      \<lparr>init = \<lambda>p. (0::nat), update = \<lambda>gr s p. (gr, Suc s)\<rparr>
      \<lparr>RAW_TRAINING_DATA = [], TRAINING_DATA = replicate 1000 (replicate 5 (replicate 8 1)),
       LABELS = replicate 1000 (replicate 5 [0, 1]), initial_params = Map.empty,
       trained_params = None, stdout = []\<rparr>) = Inr p'
    \<and> params_ok p'"
proof -
  let ?normal = "\<lambda>(shape :: nat \<times> nat) (seed :: nat). replicate (fst shape) (replicate (snd shape) (real seed))"
  let ?nb = "\<lparr>RAW_TRAINING_DATA = [], TRAINING_DATA = replicate 1000 (replicate 5 (replicate 8 1)),
       LABELS = replicate 1000 (replicate 5 [0, 1]), initial_params = Map.empty,
       trained_params = None, stdout = []\<rparr>"
  let ?opt = "\<lparr>init = \<lambda>p :: params. (0::nat), update = \<lambda>(gr :: params) s (p :: params). (gr, Suc s)\<rparr>"
  let ?grad = "\<lambda>(fn :: params \<Rightarrow> matrix \<Rightarrow> matrix \<Rightarrow> error + real) (p :: params) (b :: matrix) (l :: matrix). p"
  let ?xent = "\<lambda>logit label :: real. logit - label"
  note inv = params_keys_and_shapes_invariant
         [OF example_normal_returns_shape example_grad_keeps_shapes example_optimizer_keeps_shapes,
          of ?nb ?xent]
  from inv have p0: "params_ok (initial_params (cell_2 ?normal ?nb))"
    by (rule conjunct1)
  from inv have
    "\<forall>params. params_ok params \<and> data_ok ?nb
            \<longrightarrow> (\<exists>ps ss lv. ps 0 = params \<and> ss 0 = init ?opt params
                  \<and> (\<forall>k<NUM_TRAIN_STEPS.
                        step ?grad ?xent ?opt (ps k) (ss k) (TRAINING_DATA ?nb ! k) (LABELS ?nb ! k)
                          = Inr (ps (Suc k), ss (Suc k), lv k))
                  \<and> (\<forall>k\<le>NUM_TRAIN_STEPS. params_ok (ps k))
                  \<and> fst (fit ?grad ?xent params ?opt ?nb) = Inr (ps NUM_TRAIN_STEPS))"
    by (elim conjE)
  with p0 example_data_ok [of Map.empty]
  obtain ps where "\<forall>k\<le>NUM_TRAIN_STEPS. params_ok (ps k)"
    "fst (fit ?grad ?xent (initial_params (cell_2 ?normal ?nb)) ?opt ?nb) = Inr (ps NUM_TRAIN_STEPS)"
    by blast
  then show ?thesis
    by (intro exI [of _ "ps NUM_TRAIN_STEPS"]) simp
qed

section \<open>Properties of the jit examples\<close>

lemma g_while_python:
  "g_while (PyInt i) (PyInt n) = Inr (PyInt (max i n))"
proof (induction "nat (n - i)" arbitrary: i)
  case 0
  then have "\<not> i < n" by simp
  then show ?case
    by (subst g_while.simps) (simp add: bind_err_def max_def)
next
  case (Suc k)
  then have lt: "i < n" by linarith
  from Suc have "k = nat (n - (i + 1))" by linarith
  then have "g_while (PyInt (i + 1)) (PyInt n) = Inr (PyInt (max (i + 1) n))"
    by (rule Suc.hyps(1))
  with lt show ?case
    by (subst g_while.simps) (simp add: bind_err_def max_def)
qed

lemma g_python: "0 \<le> n \<Longrightarrow> g (PyInt x) (PyInt n) = Inr (PyInt (x + n))"
  by (simp add: g_def g_while_python bind_err_def max_def)

lemma f_python: "f (PyInt k) = Inr (PyInt (if 0 < k then k else 2 * k))"
  by (simp add: f_def bind_err_def)

lemma f_traced: "f (Jax (Tracer e)) = Inl ConcretizationTypeError"
  by (simp add: f_def bind_err_def as_int32_small)

lemma g_while_traced_bound: "g_while (PyInt 0) (Jax (Tracer e)) = Inl ConcretizationTypeError"
  by (subst g_while.simps) (simp add: bind_err_def as_int32_small)

lemma f_jit_fails:
  assumes "in_int32 x"
  shows "f_jit (PyInt x) = Inl ConcretizationTypeError"
  using assms by (simp add: f_jit_def jit1_def bind_err_def as_int32_in f_traced)

lemma g_jit_fails:
  assumes "in_int32 x" "in_int32 n"
  shows "g_jit x n = Inl ConcretizationTypeError"
  using assms by (simp add: g_jit_def jit2_def bind_err_def as_int32_in g_def g_while_traced_bound)

lemma compiled_output_PyInt:
  "in_int32 k \<Longrightarrow> compiled_output args (PyInt k) = Inr (Jax (Array (word_of_int k)))"
  by (simp add: compiled_output_def bind_err_def as_int32_in)

lemma f_jit_correct_value:
  assumes "in_int32 x" "in_int32 (2 * x)"
  shows "f_jit_correct x = Inr (Jax (Array (word_of_int (if 0 < x then x else 2 * x))))"
  using assms by (simp add: f_jit_correct_def jit1_static_def f_python bind_err_def compiled_output_PyInt)

lemma g_jit_correct_value:
  assumes n: "0 \<le> n" and x: "in_int32 x" and nn: "in_int32 n"
  shows "g_jit_correct x n = Inr (Jax (Array (word_of_int (x + n))))"
proof -
  have "g (Jax (Tracer (Var 0))) (PyInt n) = Inr (Jax (Tracer (Add (Var 0) (Lit (word_of_int n)))))"
    using n nn by (simp add: g_def g_while_python bind_err_def max_def as_int32_in)
  then show ?thesis
    using x by (simp add: g_jit_correct_def jit2_static2_def bind_err_def as_int32_in compiled_output_def)
qed

lemma g_inner_while_array:
  assumes "in_int32 n" "sint v \<le> n"
  shows "g_inner_while (Jax (Array v)) (PyInt n) = Inr (Jax (Array (word_of_int n)))"
  using assms
proof (induction "nat (n - sint v)" arbitrary: v)
  case 0
  then have "sint v = n" by simp
  moreover have "v = word_of_int (sint v)" by simp
  ultimately have "v = word_of_int n" by simp
  with 0 show ?case
    by (subst g_inner_while.simps)
       (simp add: bind_err_def as_int32_in sint_word_of_int_32)
next
  case (Suc k)
  then have lt: "sint v < n" by linarith
  have n31: "n < 2 ^ 31" using Suc.prems(1) by (simp add: in_int32_def)
  have s: "sint (v + 1) = sint v + 1" using lt n31 by (rule sint_succ_32)
  with Suc have "k = nat (n - sint (v + 1))" by linarith
  moreover have "sint (v + 1) \<le> n" using s lt by simp
  ultimately have "g_inner_while (Jax (Array (v + 1))) (PyInt n) = Inr (Jax (Array (word_of_int n)))"
    using Suc.prems(1) by (intro Suc.hyps(1))
  with lt Suc.prems(1) show ?case
    by (subst g_inner_while.simps)
       (simp add: bind_err_def as_int32_in sint_word_of_int_32 loop_body_Array)
qed

lemma g_inner_while_python:
  assumes "in_int32 n" "0 < n"
  shows "g_inner_while (PyInt 0) (PyInt n) = Inr (Jax (Array (word_of_int n)))"
proof -
  have "loop_body (PyInt 0) = Inr (Jax (Array 1))"
    using loop_body_PyInt [of 0] by (simp add: in_int32_def)
  moreover have "g_inner_while (Jax (Array 1)) (PyInt n) = Inr (Jax (Array (word_of_int n)))"
    using assms by (intro g_inner_while_array) simp_all
  ultimately show ?thesis
    using assms by (subst g_inner_while.simps) (simp add: bind_err_def)
qed

lemma g_inner_jitted_value:
  assumes n: "0 \<le> n" and x: "in_int32 x" and nn: "in_int32 n"
  shows "g_inner_jitted (PyInt x) (PyInt n)
         = Inr (if n = 0 then PyInt x else Jax (Array (word_of_int (x + n))))"
proof (cases "n = 0")
  case True
  have "g_inner_while (PyInt 0) (PyInt 0) = Inr (PyInt 0)"
    by (subst g_inner_while.simps) (simp add: bind_err_def)
  with True show ?thesis by (simp add: g_inner_jitted_def bind_err_def)
next
  case False
  with n have "0 < n" by simp
  from g_inner_while_python [OF nn this] False x show ?thesis
    by (simp add: g_inner_jitted_def bind_err_def as_int32_in)
qed


text \<open>
  Claim C2. Called after \<open>jax.jit\<close> on arguments in the int32 range, \<open>f\<close> (which
  branches on \<open>x > 0\<close>) and \<open>g\<close> (whose loop is bounded by \<open>n\<close>) fail with
  \<open>ConcretizationTypeError\<close>. With the offending argument static the calls succeed and
  return, as an array, the integer the plain Python function returns, provided it fits
  into the int32 range.
\<close>

theorem jit_fails_on_traced_control_flow_and_static_argument_succeeds:
  assumes x: "in_int32 x" and n: "in_int32 n"
  shows "f_jit (PyInt x) = Inl ConcretizationTypeError
       \<and> g_jit x n = Inl ConcretizationTypeError
       \<and> (in_int32 (2 * x) \<longrightarrow>
            (\<exists>r r'. f (PyInt x) = Inr (PyInt r) \<and> f_jit_correct x = Inr r' \<and> int_value r' = Some r))
       \<and> (0 \<le> n \<and> in_int32 (x + n) \<longrightarrow>
            (\<exists>r r'. g (PyInt x) (PyInt n) = Inr (PyInt r) \<and> g_jit_correct x n = Inr r'
                    \<and> int_value r' = Some r))"
proof (intro conjI impI)
  show "f_jit (PyInt x) = Inl ConcretizationTypeError" using x by (rule f_jit_fails)
  show "g_jit x n = Inl ConcretizationTypeError" using x n by (rule g_jit_fails)
next
  assume x2: "in_int32 (2 * x)"
  let ?r = "if 0 < x then x else 2 * x"
  have "in_int32 ?r" using x x2 by simp
  then have "int_value (Jax (Array (word_of_int ?r))) = Some ?r"
    by (simp add: sint_word_of_int_32)
  with f_python [of x] f_jit_correct_value [OF x x2]
  show "\<exists>r r'. f (PyInt x) = Inr (PyInt r) \<and> f_jit_correct x = Inr r' \<and> int_value r' = Some r"
    by blast
next
  assume a: "0 \<le> n \<and> in_int32 (x + n)"
  then have "int_value (Jax (Array (word_of_int (x + n)))) = Some (x + n)"
    by (simp add: sint_word_of_int_32 del: of_int_add)
  with a g_python [of n x] g_jit_correct_value [OF _ x n]
  show "\<exists>r r'. g (PyInt x) (PyInt n) = Inr (PyInt r) \<and> g_jit_correct x n = Inr r'
                    \<and> int_value r' = Some r"
    by blast
qed

theorem jit_fails_on_traced_control_flow_and_static_argument_succeeds_witness:
  "f_jit (PyInt 10) = Inl ConcretizationTypeError
   \<and> g_jit 10 20 = Inl ConcretizationTypeError
   \<and> f (PyInt 10) = Inr (PyInt 10)
   \<and> (\<exists>r'. f_jit_correct 10 = Inr r' \<and> int_value r' = Some 10)
   \<and> g (PyInt 10) (PyInt 20) = Inr (PyInt 30)
   \<and> (\<exists>r'. g_jit_correct 10 20 = Inr r' \<and> int_value r' = Some 30)"
proof -
  have r: "in_int32 10" "in_int32 20" "in_int32 (2 * 10)" "(0::int) \<le> 20 \<and> in_int32 (10 + 20)"
    by (simp_all add: in_int32_def)
  have fv: "f (PyInt 10) = Inr (PyInt 10)" by (simp add: f_python)
  have gv: "g (PyInt 10) (PyInt 20) = Inr (PyInt 30)" by (simp add: g_python)
  note t = jit_fails_on_traced_control_flow_and_static_argument_succeeds [OF r(1) r(2)]
  from t have 1: "f_jit (PyInt 10) = Inl ConcretizationTypeError"
    and 2: "g_jit 10 20 = Inl ConcretizationTypeError"
    by simp_all
  from t r(3) obtain a a' where "f (PyInt 10) = Inr (PyInt a)" "f_jit_correct 10 = Inr a'"
    "int_value a' = Some a"
    by blast
  with fv have 3: "\<exists>r'. f_jit_correct 10 = Inr r' \<and> int_value r' = Some 10" by simp
  from t r(4) obtain b b' where "g (PyInt 10) (PyInt 20) = Inr (PyInt b)" "g_jit_correct 10 20 = Inr b'"
    "int_value b' = Some b"
    by blast
  with gv have 4: "\<exists>r'. g_jit_correct 10 20 = Inr r' \<and> int_value r' = Some 30" by simp
  from 1 2 fv 3 gv 4 show ?thesis by (intro conjI)
qed

text \<open>
  Claim C10, as stated, fails: the compiled functions compute in int32. For \<open>x\<close> the
  largest int32 number and \<open>n = 1\<close> the plain \<open>g\<close> returns 2147483648, while
  \<open>g_inner_jitted\<close> and \<open>g_jit_correct\<close> return an array holding -2147483648.
\<close>

theorem g_workarounds_wrap_around_counterexample:
  "g (PyInt 2147483647) (PyInt 1) = Inr (PyInt 2147483648)
   \<and> g_inner_jitted (PyInt 2147483647) (PyInt 1) = Inr (Jax (Array (- 2147483648)))
   \<and> g_jit_correct 2147483647 1 = Inr (Jax (Array (- 2147483648)))
   \<and> int_value (Jax (Array (- 2147483648))) \<noteq> Some (2147483647 + 1)"
proof (intro conjI)
  show "g (PyInt 2147483647) (PyInt 1) = Inr (PyInt 2147483648)"
    by (simp add: g_python)
  show "g_inner_jitted (PyInt 2147483647) (PyInt 1) = Inr (Jax (Array (- 2147483648)))"
    by code_simp
  show "g_jit_correct 2147483647 1 = Inr (Jax (Array (- 2147483648)))"
    by code_simp
  show "int_value (Jax (Array (- 2147483648))) \<noteq> Some (2147483647 + 1)"
    by simp
qed

text \<open>
  Claim C10, amended. For every integer \<open>x\<close> and every \<open>n \<ge> 0\<close> the plain \<open>g\<close> returns
  \<open>x + n\<close>; when \<open>x\<close>, \<open>n\<close> and \<open>x + n\<close> lie in the int32 range, \<open>g_inner_jitted\<close> and
  \<open>g_jit_correct\<close> return the same number (as an int32 array; \<open>g_inner_jitted\<close> returns
  the Python integer itself when \<open>n = 0\<close>).
\<close>

theorem g_workarounds_agree_in_int32_range:
  assumes n: "0 \<le> n"
  shows "g (PyInt x) (PyInt n) = Inr (PyInt (x + n))
       \<and> (in_int32 x \<and> in_int32 n \<and> in_int32 (x + n) \<longrightarrow>
            g_inner_jitted (PyInt x) (PyInt n)
              = Inr (if n = 0 then PyInt x else Jax (Array (word_of_int (x + n))))
          \<and> g_jit_correct x n = Inr (Jax (Array (word_of_int (x + n))))
          \<and> int_value (if n = 0 then PyInt x else Jax (Array (word_of_int (x + n)))) = Some (x + n)
          \<and> int_value (Jax (Array (word_of_int (x + n)))) = Some (x + n))"
proof (intro conjI impI)
  show "g (PyInt x) (PyInt n) = Inr (PyInt (x + n))" using n by (rule g_python)
next
  assume a: "in_int32 x \<and> in_int32 n \<and> in_int32 (x + n)"
  then have x: "in_int32 x" and nn: "in_int32 n" and s: "in_int32 (x + n)" by simp_all
  show "g_inner_jitted (PyInt x) (PyInt n)
              = Inr (if n = 0 then PyInt x else Jax (Array (word_of_int (x + n))))"
    using n x nn by (rule g_inner_jitted_value)
  show "g_jit_correct x n = Inr (Jax (Array (word_of_int (x + n))))"
    using n x nn by (rule g_jit_correct_value)
  show "int_value (if n = 0 then PyInt x else Jax (Array (word_of_int (x + n)))) = Some (x + n)"
    using s by (simp add: sint_word_of_int_32 del: of_int_add)
  show "int_value (Jax (Array (word_of_int (x + n)))) = Some (x + n)"
    using s by (simp add: sint_word_of_int_32 del: of_int_add)
qed

theorem g_workarounds_agree_in_int32_range_witness:
  "g (PyInt 10) (PyInt 20) = Inr (PyInt 30)
   \<and> g_inner_jitted (PyInt 10) (PyInt 20) = Inr (Jax (Array 30))
   \<and> g_jit_correct 10 20 = Inr (Jax (Array 30))
   \<and> int_value (Jax (Array 30)) = Some 30"
proof -
  have n: "(0::int) \<le> 20" by simp
  have r: "in_int32 10 \<and> in_int32 20 \<and> in_int32 (10 + 20)"
    by (simp add: in_int32_def)
  from g_workarounds_agree_in_int32_range [OF n, of 10] r
  show ?thesis by simp
qed

end
